theory Spec2Isabelle
  imports Main "HOL-Library.Multiset"
begin

section \<open>Segment membership synchronisation: the model\<close>

text \<open>
  The script fetches the members of a segment, compares them with the members recorded in
  a local cache file, posts a "Joined Segment" event for every new member and a
  "Left Segment" event for every member that is gone, and rewrites the cache file.

  Identities are e-mail addresses: Python strings, compared by exact equality.
\<close>

type_synonym identity = string
type_synonym timestamp = string

subsection \<open>The cache file\<close>

text \<open>
  The dictionary that \<^verbatim>\<open>json.dump\<close> writes, and that \<^verbatim>\<open>json.load\<close> returns from a file
  the script wrote. The field \<open>profiles\<close> is \<open>None\<close> when the key is absent from the
  dictionary (the add phase subscripts the key, the removal phase reads it with a default);
  \<open>last_updated\<close> is \<open>None\<close> for JSON null.
\<close>

record cache =
  profiles :: "identity list option"
  last_updated :: "timestamp option"

text \<open>
  \<^verbatim>\<open>json.load\<close> returns whatever JSON value the file holds. Two shapes other than the
  dictionary above are told apart, by the first operation of the script that fails on them.
  A dictionary whose \<^verbatim>\<open>"profiles"\<close> is a string, an object, or an array with an element that
  is not a string is iterated over by Python as if it were a list of members; such files are
  not modelled.
\<close>

datatype shape =
    Not_an_object         \<comment> \<open>null, a boolean, a number, a string or an array\<close>
  | Profiles_not_iterable \<comment> \<open>an object whose "profiles" is null, a boolean or a number\<close>

datatype document = Dict cache | Other shape

datatype file_state =
    FileNotFound          \<comment> \<open>no file: open raises FileNotFoundError\<close>
  | Unreadable            \<comment> \<open>the file exists and open raises another OSError\<close>
  | NotText               \<comment> \<open>bytes that do not decode: f.read raises UnicodeDecodeError\<close>
  | NotJson               \<comment> \<open>text that is not JSON: json.load raises JSONDecodeError\<close>
  | Json cache
  | JsonOther shape

datatype exn =
    FileNotFoundError
  | JSONDecodeError
  | UnicodeDecodeError
  | OSError
  | KeyError string
  | TypeError
  | AttributeError
  | RequestException

subsection \<open>Effects\<close>

datatype level = INFO | WARNING | ERROR

datatype msg =
    Failed_to_fetch_profiles nat string
  | Event_successfully_sent string identity
  | Failed_to_send_event identity nat string
  | Error_sending_event identity
  | New_profiles_added "identity list"
  | Local_cache_updated
  | No_new_profiles_to_add
  | Cache_file_not_found_or_invalid
  | Stale_profiles_removed "identity list"
  | Stale_profiles_removed_and_cache_updated
  | No_stale_profiles_to_remove
  | No_profiles_fetched

text \<open>What the script does to the outside, in the order it does it.\<close>

datatype io =
    Open_read                          \<comment> \<open>open(CACHE_FILE, "r")\<close>
  | Write cache                        \<comment> \<open>open(CACHE_FILE, "w") and json.dump\<close>
  | Get string                         \<comment> \<open>requests.get(url)\<close>
  | Post identity string timestamp     \<comment> \<open>requests.post: email, event name, payload timestamp\<close>
  | Log level msg

record world =
  cache_file :: file_state
  writable :: bool
  ticks :: nat
  trace :: "io list"

text \<open>
  The collaborators the script does not control. The HTTP answers may depend on everything
  that happened before (the trace); \<open>clock\<close> gives the timestamp of the n-th reading of
  the clock; \<open>set_order\<close> is the order in which Python iterates over a set, which the
  language leaves open.
\<close>

record page =
  data :: "identity list"
  next_link :: "string option"

datatype get_result = Get_raises | Response nat string page

datatype post_result = Post_raises | Post_status nat string

record env =
  http_post :: "io list \<Rightarrow> identity \<Rightarrow> string \<Rightarrow> post_result"
  clock :: "nat \<Rightarrow> timestamp"
  set_order :: "identity list \<Rightarrow> identity list"

definition iteration_ok :: "env \<Rightarrow> bool" where
  "iteration_ok e = (\<forall>xs. mset (set_order e xs) = mset xs)"

definition logging :: "level \<Rightarrow> msg \<Rightarrow> world \<Rightarrow> world" where
  "logging l m w = w\<lparr>trace := trace w @ [Log l m]\<rparr>"

definition now :: "env \<Rightarrow> world \<Rightarrow> timestamp \<times> world" where
  "now e w = (clock e (ticks w), w\<lparr>ticks := Suc (ticks w)\<rparr>)"

definition read_cache :: "world \<Rightarrow> (exn + document) \<times> world" where
  "read_cache w =
     (let w1 = w\<lparr>trace := trace w @ [Open_read]\<rparr>
      in case cache_file w of
           FileNotFound \<Rightarrow> (Inl FileNotFoundError, w1)
         | Unreadable \<Rightarrow> (Inl OSError, w1)
         | NotText \<Rightarrow> (Inl UnicodeDecodeError, w1)
         | NotJson \<Rightarrow> (Inl JSONDecodeError, w1)
         | Json c \<Rightarrow> (Inr (Dict c), w1)
         | JsonOther s \<Rightarrow> (Inr (Other s), w1))"

definition write_cache :: "cache \<Rightarrow> world \<Rightarrow> (exn + unit) \<times> world" where
  "write_cache c w =
     (if writable w
      then (Inr (), w\<lparr>cache_file := Json c, trace := trace w @ [Write c]\<rparr>)
      else (Inl OSError, w))"

text \<open>
  \<^verbatim>\<open>set(xs) - set(ys)\<close>: the elements of \<open>xs\<close> that are not in \<open>ys\<close>, each once.
\<close>

definition set_difference :: "identity list \<Rightarrow> identity list \<Rightarrow> identity list" where
  "set_difference xs ys = filter (\<lambda>x. x \<notin> set ys) (remdups xs)"

subsection \<open>fetch_profiles\<close>

definition segment_url :: string where
  "segment_url = ''https://a.klaviyo.com/api/segments/KLAVIYO_SEGMENT_ID/profiles''"

partial_function (option) fetch_pages ::
  "(io list \<Rightarrow> string \<Rightarrow> get_result) \<Rightarrow> string option \<Rightarrow> identity list \<Rightarrow> world
     \<Rightarrow> ((exn + identity list) \<times> world) option" where
  "fetch_pages http_get url acc w =
     (case url of
        None \<Rightarrow> Some (Inr acc, w)
      | Some u \<Rightarrow>
          if u = [] then Some (Inr acc, w)
          else
            (case http_get (trace w) u of
               Get_raises \<Rightarrow> Some (Inl RequestException, w\<lparr>trace := trace w @ [Get u]\<rparr>)
             | Response status_code text body \<Rightarrow>
                 if status_code = 200
                 then fetch_pages http_get (next_link body) (acc @ data body)
                        (w\<lparr>trace := trace w @ [Get u]\<rparr>)
                 else Some (Inr [],
                        logging ERROR (Failed_to_fetch_profiles status_code text)
                          (w\<lparr>trace := trace w @ [Get u]\<rparr>))))"

declare fetch_pages.simps [code]

definition fetch_profiles ::
  "(io list \<Rightarrow> string \<Rightarrow> get_result) \<Rightarrow> world \<Rightarrow> ((exn + identity list) \<times> world) option" where
  "fetch_profiles http_get w = fetch_pages http_get (Some segment_url) [] w"

subsection \<open>push_event_to_klaviyo\<close>

definition push_event_to_klaviyo :: "env \<Rightarrow> identity \<Rightarrow> string \<Rightarrow> world \<Rightarrow> world" where
  "push_event_to_klaviyo e email event_name w =
     (case now e w of (ts, w1) \<Rightarrow>
        (let w2 = w1\<lparr>trace := trace w1 @ [Post email event_name ts]\<rparr>
         in case http_post e (trace w1) email event_name of
              Post_raises \<Rightarrow> logging ERROR (Error_sending_event email) w2
            | Post_status status_code text \<Rightarrow>
                if status_code = 202
                then logging INFO (Event_successfully_sent event_name email) w2
                else logging ERROR (Failed_to_send_event email status_code text) w2))"

text \<open>The loop \<^verbatim>\<open>for email in ...: push_event_to_klaviyo(email, event_name)\<close>.\<close>

fun push_events :: "env \<Rightarrow> string \<Rightarrow> identity list \<Rightarrow> world \<Rightarrow> world" where
  "push_events e event_name [] w = w"
| "push_events e event_name (email # emails) w =
     push_events e event_name emails (push_event_to_klaviyo e email event_name w)"

subsection \<open>update_cache\<close>

definition new_profiles :: "env \<Rightarrow> identity list \<Rightarrow> identity list \<Rightarrow> identity list" where
  "new_profiles e fetched cached = set_order e (set_difference fetched cached)"

text \<open>
  The handler replaces the loaded document by the default for the two exceptions it names
  and for no other. After that, \<^verbatim>\<open>cache["profiles"]\<close> raises TypeError on a value that is no
  object and KeyError on an object without the key, and \<^verbatim>\<open>set\<close> raises TypeError on a value
  that cannot be iterated over.
\<close>

definition update_cache :: "env \<Rightarrow> identity list \<Rightarrow> world \<Rightarrow> (exn + unit) \<times> world" where
  "update_cache e fetched w =
     (case read_cache w of (r, w1) \<Rightarrow>
        (case (case r of
                 Inr d \<Rightarrow> Inr d
               | Inl x \<Rightarrow>
                   if x = FileNotFoundError \<or> x = JSONDecodeError
                   then Inr (Dict \<lparr>profiles = Some [], last_updated = None\<rparr>)
                   else Inl x) of
           Inl x \<Rightarrow> (Inl x, w1)
         | Inr (Other Not_an_object) \<Rightarrow> (Inl TypeError, w1)
         | Inr (Other Profiles_not_iterable) \<Rightarrow> (Inl TypeError, w1)
         | Inr (Dict cache) \<Rightarrow>
             (case profiles cache of
                None \<Rightarrow> (Inl (KeyError ''profiles''), w1)
              | Some cached \<Rightarrow>
                  (let new = new_profiles e fetched cached
                   in if new \<noteq> []
                      then
                        (let w2 = logging INFO (New_profiles_added new) w1;
                             w3 = push_events e ''Joined Segment'' new w2
                         in case now e w3 of (ts, w4) \<Rightarrow>
                              (case write_cache
                                      (cache\<lparr>profiles := Some (cached @ new),
                                             last_updated := Some ts\<rparr>) w4 of
                                 (Inl x, w5) \<Rightarrow> (Inl x, w5)
                               | (Inr u, w5) \<Rightarrow> (Inr (), logging INFO Local_cache_updated w5)))
                      else (Inr (), logging INFO No_new_profiles_to_add w1)))))"

subsection \<open>remove_stale_profiles\<close>

definition stale_profiles :: "env \<Rightarrow> identity list \<Rightarrow> identity list \<Rightarrow> identity list" where
  "stale_profiles e cached fetched = set_order e (set_difference cached fetched)"

text \<open>
  Here the handler returns, and \<^verbatim>\<open>cache.get\<close> raises AttributeError on a value that is no
  object.
\<close>

definition remove_stale_profiles ::
  "env \<Rightarrow> identity list \<Rightarrow> world \<Rightarrow> (exn + unit) \<times> world" where
  "remove_stale_profiles e fetched w =
     (case read_cache w of (r, w1) \<Rightarrow>
        (case r of
           Inl x \<Rightarrow>
             if x = FileNotFoundError \<or> x = JSONDecodeError
             then (Inr (), logging WARNING Cache_file_not_found_or_invalid w1)
             else (Inl x, w1)
         | Inr (Other Not_an_object) \<Rightarrow> (Inl AttributeError, w1)
         | Inr (Other Profiles_not_iterable) \<Rightarrow> (Inl TypeError, w1)
         | Inr (Dict cache) \<Rightarrow>
             (let cached = (case profiles cache of None \<Rightarrow> [] | Some ps \<Rightarrow> ps);
                  stale = stale_profiles e cached fetched
              in if stale \<noteq> []
                 then
                   (let w2 = logging INFO (Stale_profiles_removed stale) w1;
                        w3 = push_events e ''Left Segment'' stale w2
                    in case now e w3 of (ts, w4) \<Rightarrow>
                         (case write_cache
                                 (cache\<lparr>profiles := Some (set_order e (set_difference cached stale)),
                                        last_updated := Some ts\<rparr>) w4 of
                            (Inl x, w5) \<Rightarrow> (Inl x, w5)
                          | (Inr u, w5) \<Rightarrow>
                              (Inr (), logging INFO Stale_profiles_removed_and_cache_updated w5)))
                 else (Inr (), logging INFO No_stale_profiles_to_remove w1))))"

subsection \<open>main\<close>

definition main ::
  "(io list \<Rightarrow> string \<Rightarrow> get_result) \<Rightarrow> env \<Rightarrow> world \<Rightarrow> ((exn + unit) \<times> world) option" where
  "main http_get e w =
     (case fetch_profiles http_get w of
        None \<Rightarrow> None
      | Some (Inl x, w1) \<Rightarrow> Some (Inl x, w1)
      | Some (Inr fetched, w1) \<Rightarrow>
          if fetched \<noteq> []
          then (case update_cache e fetched w1 of
                  (Inl x, w2) \<Rightarrow> Some (Inl x, w2)
                | (Inr u, w2) \<Rightarrow> Some (remove_stale_profiles e fetched w2))
          else Some (Inr (), logging WARNING No_profiles_fetched w1))"

subsection \<open>Observations on a trace\<close>

fun attempts :: "io list \<Rightarrow> (identity \<times> string) list" where
  "attempts [] = []"
| "attempts (Post email event_name ts # tr) = (email, event_name) # attempts tr"
| "attempts (x # tr) = attempts tr"

fun is_notification :: "io \<Rightarrow> bool" where
  "is_notification (Post email event_name ts) = True"
| "is_notification (Log l (Event_successfully_sent n a)) = True"
| "is_notification (Log l (Failed_to_send_event a c t)) = True"
| "is_notification (Log l (Error_sending_event a)) = True"
| "is_notification x = False"

fun prior_members :: "file_state \<Rightarrow> identity list option" where
  "prior_members FileNotFound = Some []"
| "prior_members NotJson = Some []"
| "prior_members Unreadable = None"
| "prior_members NotText = None"
| "prior_members (Json c) = profiles c"
| "prior_members (JsonOther s) = None"

definition cached_profiles :: "cache \<Rightarrow> identity list" where
  "cached_profiles c = (case profiles c of None \<Rightarrow> [] | Some ps \<Rightarrow> ps)"

fun is_fetch_io :: "io \<Rightarrow> bool" where
  "is_fetch_io (Get u) = True"
| "is_fetch_io (Log l (Failed_to_fetch_profiles s t)) = True"
| "is_fetch_io x = False"

fun writes :: "io list \<Rightarrow> cache list" where
  "writes [] = []"
| "writes (Write c # tr) = c # writes tr"
| "writes (x # tr) = writes tr"

subsection \<open>A small world to run the script in\<close>

definition example_env :: env where
  "example_env =
     \<lparr>http_post = (\<lambda>tr email event_name. Post_status 202 ''''),
      clock = (\<lambda>n. replicate n (CHR ''s'')),
      set_order = (\<lambda>xs. xs)\<rparr>"

definition one_page :: "identity list \<Rightarrow> io list \<Rightarrow> string \<Rightarrow> get_result" where
  "one_page members tr url = Response 200 '''' \<lparr>data = members, next_link = None\<rparr>"

definition example_world :: world where
  "example_world =
     \<lparr>cache_file = Json \<lparr>profiles = Some [''a@x.org'', ''b@x.org''], last_updated = None\<rparr>,
      writable = True, ticks = 0, trace = []\<rparr>"

definition no_answer :: "io list \<Rightarrow> string \<Rightarrow> get_result" where
  "no_answer tr url = Get_raises"

definition failing_page :: "io list \<Rightarrow> string \<Rightarrow> get_result" where
  "failing_page tr url = Response 500 ''Internal Server Error'' \<lparr>data = [], next_link = None\<rparr>"

definition example_after :: world where
  "example_after =
     \<lparr>cache_file = Json \<lparr>profiles = Some [''b@x.org'', ''c@x.org''], last_updated = Some ''sss''\<rparr>,
      writable = True, ticks = 4,
      trace =
        [Get segment_url,
         Open_read,
         Log INFO (New_profiles_added [''c@x.org'']),
         Post ''c@x.org'' ''Joined Segment'' [],
         Log INFO (Event_successfully_sent ''Joined Segment'' ''c@x.org''),
         Write \<lparr>profiles = Some [''a@x.org'', ''b@x.org'', ''c@x.org''], last_updated = Some ''s''\<rparr>,
         Log INFO Local_cache_updated,
         Open_read,
         Log INFO (Stale_profiles_removed [''a@x.org'']),
         Post ''a@x.org'' ''Left Segment'' ''ss'',
         Log INFO (Event_successfully_sent ''Left Segment'' ''a@x.org''),
         Write \<lparr>profiles = Some [''b@x.org'', ''c@x.org''], last_updated = Some ''sss''\<rparr>,
         Log INFO Stale_profiles_removed_and_cache_updated]\<rparr>"

section \<open>The effect of each function\<close>

lemma attempts_append: "attempts (xs @ ys) = attempts xs @ attempts ys"
  by (induction xs rule: attempts.induct) simp_all

lemma push_event_to_klaviyo_effect:
  "\<exists>new. push_event_to_klaviyo e email n w = w\<lparr>ticks := Suc (ticks w), trace := trace w @ new\<rparr>
     \<and> attempts new = [(email, n)] \<and> list_all is_notification new"
  by (auto simp: push_event_to_klaviyo_def now_def logging_def Let_def split: post_result.splits)

lemma push_events_effect:
  "\<exists>new. push_events e n xs w = w\<lparr>ticks := ticks w + length xs, trace := trace w @ new\<rparr>
     \<and> attempts new = map (\<lambda>x. (x, n)) xs \<and> list_all is_notification new"
proof (induction xs arbitrary: w)
  case Nil
  show ?case by (rule exI [of _ "[]"]) simp
next
  case (Cons x xs)
  obtain n1 where n1: "push_event_to_klaviyo e x n w = w\<lparr>ticks := Suc (ticks w), trace := trace w @ n1\<rparr>"
    "attempts n1 = [(x, n)]" "list_all is_notification n1"
    using push_event_to_klaviyo_effect by blast
  obtain n2 where n2: "push_events e n xs (w\<lparr>ticks := Suc (ticks w), trace := trace w @ n1\<rparr>) =
      w\<lparr>ticks := Suc (ticks w) + length xs, trace := (trace w @ n1) @ n2\<rparr>"
    "attempts n2 = map (\<lambda>x. (x, n)) xs" "list_all is_notification n2"
    using Cons.IH [of "w\<lparr>ticks := Suc (ticks w), trace := trace w @ n1\<rparr>"] by auto
  show ?case
    by (rule exI [of _ "n1 @ n2"]) (simp add: n1 n2 attempts_append)
qed

lemma set_set_difference: "set (set_difference xs ys) = set xs - set ys"
  by (auto simp: set_difference_def)

lemma distinct_set_difference: "distinct (set_difference xs ys)"
  by (simp add: set_difference_def)

lemma set_order_set: "iteration_ok e \<Longrightarrow> set (set_order e xs) = set xs"
  unfolding iteration_ok_def by (metis set_mset_mset)

lemma set_order_distinct: "iteration_ok e \<Longrightarrow> distinct (set_order e xs) = distinct xs"
  unfolding iteration_ok_def by (metis mset_eq_imp_distinct_iff)

lemma set_order_Nil: "iteration_ok e \<Longrightarrow> (set_order e xs = []) = (xs = [])"
  unfolding iteration_ok_def by (metis mset_zero_iff)

lemma set_new_profiles: "iteration_ok e \<Longrightarrow> set (new_profiles e F P) = set F - set P"
  by (simp add: new_profiles_def set_order_set set_set_difference)

lemma distinct_new_profiles: "iteration_ok e \<Longrightarrow> distinct (new_profiles e F P)"
  by (simp add: new_profiles_def set_order_distinct distinct_set_difference)

lemma set_stale_profiles: "iteration_ok e \<Longrightarrow> set (stale_profiles e P F) = set P - set F"
  by (simp add: stale_profiles_def set_order_set set_set_difference)

lemma distinct_stale_profiles: "iteration_ok e \<Longrightarrow> distinct (stale_profiles e P F)"
  by (simp add: stale_profiles_def set_order_distinct distinct_set_difference)

lemma update_cache_unchanged:
  assumes "prior_members (cache_file w) = Some P" "new_profiles e F P = []"
  shows "update_cache e F w =
           (Inr (), w\<lparr>trace := trace w @ [Open_read, Log INFO No_new_profiles_to_add]\<rparr>)"
  using assms
  by (cases "cache_file w")
     (simp_all add: update_cache_def read_cache_def logging_def Let_def)

lemma update_cache_changed:
  assumes "prior_members (cache_file w) = Some P" "new_profiles e F P \<noteq> []" "writable w"
  shows "\<exists>notifs c.
           update_cache e F w =
             (Inr (), w\<lparr>cache_file := Json c,
                        ticks := Suc (ticks w + length (new_profiles e F P)),
                        trace := trace w @ [Open_read, Log INFO (New_profiles_added (new_profiles e F P))]
                                  @ notifs @ [Write c, Log INFO Local_cache_updated]\<rparr>)
           \<and> c = \<lparr>profiles = Some (P @ new_profiles e F P),
                   last_updated = Some (clock e (ticks w + length (new_profiles e F P)))\<rparr>
           \<and> attempts notifs = map (\<lambda>x. (x, ''Joined Segment'')) (new_profiles e F P)
           \<and> list_all is_notification notifs"
proof -
  let ?new = "new_profiles e F P"
  let ?w2 = "w\<lparr>trace := trace w @ [Open_read, Log INFO (New_profiles_added ?new)]\<rparr>"
  obtain notifs where n:
    "push_events e ''Joined Segment'' ?new ?w2 =
       ?w2\<lparr>ticks := ticks ?w2 + length ?new, trace := trace ?w2 @ notifs\<rparr>"
    "attempts notifs = map (\<lambda>x. (x, ''Joined Segment'')) ?new"
    "list_all is_notification notifs"
    using push_events_effect by blast
  show ?thesis
    apply (rule exI [of _ notifs])
    using assms n
    by (cases "cache_file w")
       (simp_all add: update_cache_def read_cache_def write_cache_def logging_def now_def Let_def)
qed

lemma writes_append: "writes (xs @ ys) = writes xs @ writes ys"
  by (induction xs rule: writes.induct) simp_all

lemma remove_stale_profiles_skipped:
  assumes "cache_file w = FileNotFound \<or> cache_file w = NotJson"
  shows "remove_stale_profiles e F w =
           (Inr (), w\<lparr>trace := trace w @ [Open_read, Log WARNING Cache_file_not_found_or_invalid]\<rparr>)"
  using assms
  by (auto simp: remove_stale_profiles_def read_cache_def logging_def Let_def)

lemma remove_stale_profiles_unchanged:
  assumes "cache_file w = Json c" "stale_profiles e (cached_profiles c) F = []"
  shows "remove_stale_profiles e F w =
           (Inr (), w\<lparr>trace := trace w @ [Open_read, Log INFO No_stale_profiles_to_remove]\<rparr>)"
  using assms
  by (simp add: remove_stale_profiles_def read_cache_def logging_def Let_def cached_profiles_def)

lemma remove_stale_profiles_changed:
  assumes "cache_file w = Json c" "stale_profiles e (cached_profiles c) F \<noteq> []" "writable w"
  shows "\<exists>notifs c'.
           remove_stale_profiles e F w =
             (Inr (), w\<lparr>cache_file := Json c',
                        ticks := Suc (ticks w + length (stale_profiles e (cached_profiles c) F)),
                        trace := trace w @ [Open_read,
                                   Log INFO (Stale_profiles_removed (stale_profiles e (cached_profiles c) F))]
                                  @ notifs @ [Write c', Log INFO Stale_profiles_removed_and_cache_updated]\<rparr>)
           \<and> c' = \<lparr>profiles = Some (set_order e (set_difference (cached_profiles c)
                                       (stale_profiles e (cached_profiles c) F))),
                   last_updated = Some (clock e (ticks w + length (stale_profiles e (cached_profiles c) F)))\<rparr>
           \<and> attempts notifs = map (\<lambda>x. (x, ''Left Segment'')) (stale_profiles e (cached_profiles c) F)
           \<and> list_all is_notification notifs"
proof -
  let ?stale = "stale_profiles e (cached_profiles c) F"
  let ?w2 = "w\<lparr>trace := trace w @ [Open_read, Log INFO (Stale_profiles_removed ?stale)]\<rparr>"
  obtain notifs where n:
    "push_events e ''Left Segment'' ?stale ?w2 =
       ?w2\<lparr>ticks := ticks ?w2 + length ?stale, trace := trace ?w2 @ notifs\<rparr>"
    "attempts notifs = map (\<lambda>x. (x, ''Left Segment'')) ?stale"
    "list_all is_notification notifs"
    using push_events_effect by blast
  have c: "(case profiles c of None \<Rightarrow> [] | Some ps \<Rightarrow> ps) = cached_profiles c"
    by (simp add: cached_profiles_def)
  show ?thesis
    apply (rule exI [of _ notifs])
    using assms n
    by (simp add: remove_stale_profiles_def read_cache_def write_cache_def logging_def now_def Let_def c)
qed

lemma fetch_pages_effect:
  assumes "fetch_pages g url acc w = Some y"
  shows "\<exists>new. snd y = w\<lparr>trace := trace w @ new\<rparr> \<and> list_all is_fetch_io new
           \<and> ((\<exists>l s t. Log l (Failed_to_fetch_profiles s t) \<in> set new) \<longrightarrow> fst y = Inr [])"
proof (rule fetch_pages.raw_induct
    [where P = "\<lambda>g url acc w y. \<exists>new. snd y = w\<lparr>trace := trace w @ new\<rparr> \<and> list_all is_fetch_io new
           \<and> ((\<exists>l s t. Log l (Failed_to_fetch_profiles s t) \<in> set new) \<longrightarrow> fst y = Inr [])",
     OF _ assms], goal_cases)
  case (1 fetch_pages g url acc w y)
  show ?case
  proof (cases url)
    case None
    with 1(2) show ?thesis by (intro exI [of _ "[]"]) auto
  next
    case (Some u)
    show ?thesis
    proof (cases "u = []")
      case True
      with Some 1(2) show ?thesis by (intro exI [of _ "[]"]) auto
    next
      case False
      show ?thesis
      proof (cases "g (trace w) u")
        case Get_raises
        with Some False 1(2) show ?thesis by (intro exI [of _ "[Get u]"]) auto
      next
        case (Response status_code reason body)
        show ?thesis
        proof (cases "status_code = 200")
          case True
          with Some False Response 1(2)
          have "fetch_pages g (next_link body) (acc @ data body) (w\<lparr>trace := trace w @ [Get u]\<rparr>) = Some y"
            by simp
          from 1(1) [OF this] obtain new where
            "snd y = w\<lparr>trace := trace w @ [Get u]\<rparr>\<lparr>trace := trace (w\<lparr>trace := trace w @ [Get u]\<rparr>) @ new\<rparr>"
            "list_all is_fetch_io new"
            "(\<exists>l s t. Log l (Failed_to_fetch_profiles s t) \<in> set new) \<longrightarrow> fst y = Inr []"
            by blast
          then show ?thesis by (intro exI [of _ "Get u # new"]) auto
        next
          case F2: False
          with Some False Response 1(2) show ?thesis
            by (intro exI [of _ "[Get u, Log ERROR (Failed_to_fetch_profiles status_code reason)]"])
               (auto simp: logging_def)
        qed
      qed
    qed
  qed
qed

lemma fetch_pages_failure:
  assumes "u \<noteq> []" "g (trace w) u = Response status_code text body" "status_code \<noteq> 200"
  shows "fetch_pages g (Some u) acc w =
           Some (Inr [], w\<lparr>trace := trace w @ [Get u, Log ERROR (Failed_to_fetch_profiles status_code text)]\<rparr>)"
  using assms by (subst fetch_pages.simps) (simp add: logging_def)

lemma notification_no_store:
  "list_all is_notification tr \<Longrightarrow>
     writes tr = [] \<and> count_list tr Open_read = 0
     \<and> Log WARNING Cache_file_not_found_or_invalid \<notin> set tr"
proof (induction tr)
  case Nil
  show ?case by simp
next
  case (Cons x tr)
  then show ?case by (cases x rule: is_notification.cases) auto
qed

lemma fetch_io_no_store:
  "list_all is_fetch_io tr \<Longrightarrow>
     attempts tr = [] \<and> writes tr = [] \<and> count_list tr Open_read = 0
     \<and> Log WARNING Cache_file_not_found_or_invalid \<notin> set tr"
proof (induction tr)
  case Nil
  show ?case by simp
next
  case (Cons x tr)
  then show ?case by (cases x rule: is_fetch_io.cases) auto
qed

lemma update_cache_summary:
  assumes "iteration_ok e" "writable w" "prior_members (cache_file w) = Some P" "F \<noteq> []"
  obtains w1 c1 P1 pre post where
    "update_cache e F w = (Inr (), w1)" "writable w1"
    "cache_file w1 = Json c1" "profiles c1 = Some P1" "set P1 = set P \<union> set F"
    "trace w1 = trace w @ Open_read # pre @ post"
    "attempts pre = map (\<lambda>x. (x, ''Joined Segment'')) (new_profiles e F P)"
    "writes pre = []" "count_list pre Open_read = 0"
    "Log WARNING Cache_file_not_found_or_invalid \<notin> set pre"
    "attempts post = []" "count_list post Open_read = 0"
    "Log WARNING Cache_file_not_found_or_invalid \<notin> set post"
    "writes post = (if new_profiles e F P = [] then [] else [c1])"
    "cache_file w1 = (if new_profiles e F P = [] then cache_file w
                      else Json \<lparr>profiles = Some (P @ new_profiles e F P),
                                 last_updated = Some (clock e (ticks w + length (new_profiles e F P)))\<rparr>)"
    "ticks w1 = (if new_profiles e F P = [] then ticks w
                 else Suc (ticks w + length (new_profiles e F P)))"
proof (cases "new_profiles e F P = []")
  case True
  with assms(1) have sub: "set F \<subseteq> set P"
    using set_new_profiles [of e F P] by auto
  with assms(4) have "P \<noteq> []" by auto
  with assms(3) obtain c where c: "cache_file w = Json c" "profiles c = Some P"
    by (cases "cache_file w") auto
  show ?thesis
    by (rule that [of "w\<lparr>trace := trace w @ [Open_read, Log INFO No_new_profiles_to_add]\<rparr>"
                     c P "[Log INFO No_new_profiles_to_add]" "[]"])
       (use True assms sub c update_cache_unchanged [OF assms(3) True] in auto)
next
  case False
  from update_cache_changed [OF assms(3) False assms(2)]
  obtain notifs c where r:
    "update_cache e F w =
       (Inr (), w\<lparr>cache_file := Json c,
                  ticks := Suc (ticks w + length (new_profiles e F P)),
                  trace := trace w @ [Open_read, Log INFO (New_profiles_added (new_profiles e F P))]
                            @ notifs @ [Write c, Log INFO Local_cache_updated]\<rparr>)"
    "c = \<lparr>profiles = Some (P @ new_profiles e F P),
          last_updated = Some (clock e (ticks w + length (new_profiles e F P)))\<rparr>"
    "attempts notifs = map (\<lambda>x. (x, ''Joined Segment'')) (new_profiles e F P)"
    "list_all is_notification notifs"
    by blast
  note n = notification_no_store [OF r(4)]
  show ?thesis
    by (rule that [of "w\<lparr>cache_file := Json c,
                  ticks := Suc (ticks w + length (new_profiles e F P)),
                  trace := trace w @ [Open_read, Log INFO (New_profiles_added (new_profiles e F P))]
                            @ notifs @ [Write c, Log INFO Local_cache_updated]\<rparr>"
                     c "P @ new_profiles e F P"
                     "Log INFO (New_profiles_added (new_profiles e F P)) # notifs"
                     "[Write c, Log INFO Local_cache_updated]"])
       (use False assms r n set_new_profiles [OF assms(1), of F P] in auto)
qed

lemma remove_stale_profiles_summary:
  assumes "iteration_ok e" "writable w" "cache_file w = Json c" "profiles c = Some P"
  obtains w2 c2 P2 pre post where
    "remove_stale_profiles e F w = (Inr (), w2)" "writable w2"
    "cache_file w2 = Json c2" "profiles c2 = Some P2" "set P2 = set P \<inter> set F"
    "trace w2 = trace w @ Open_read # pre @ post"
    "attempts pre = map (\<lambda>x. (x, ''Left Segment'')) (stale_profiles e P F)"
    "writes pre = []" "count_list pre Open_read = 0"
    "Log WARNING Cache_file_not_found_or_invalid \<notin> set pre"
    "attempts post = []" "count_list post Open_read = 0"
    "Log WARNING Cache_file_not_found_or_invalid \<notin> set post"
    "writes post = (if stale_profiles e P F = [] then [] else [c2])"
    "cache_file w2 = (if stale_profiles e P F = [] then cache_file w
                      else Json \<lparr>profiles = Some (set_order e (set_difference P (stale_profiles e P F))),
                                 last_updated = Some (clock e (ticks w + length (stale_profiles e P F)))\<rparr>)"
    "ticks w2 = (if stale_profiles e P F = [] then ticks w
                 else Suc (ticks w + length (stale_profiles e P F)))"
proof -
  have cp: "cached_profiles c = P"
    using assms(4) by (simp add: cached_profiles_def)
  show ?thesis
  proof (cases "stale_profiles e P F = []")
    case True
    with assms(1) have sub: "set P \<subseteq> set F"
      using set_stale_profiles [of e P F] by auto
    show ?thesis
      by (rule that [of "w\<lparr>trace := trace w @ [Open_read, Log INFO No_stale_profiles_to_remove]\<rparr>"
                       c P "[Log INFO No_stale_profiles_to_remove]" "[]"])
         (use True assms sub remove_stale_profiles_unchanged [of w c e F] cp in auto)
  next
    case False
    from remove_stale_profiles_changed [of w c e F] False assms cp
    obtain notifs c' where r:
      "remove_stale_profiles e F w =
         (Inr (), w\<lparr>cache_file := Json c',
                    ticks := Suc (ticks w + length (stale_profiles e P F)),
                    trace := trace w @ [Open_read, Log INFO (Stale_profiles_removed (stale_profiles e P F))]
                              @ notifs @ [Write c', Log INFO Stale_profiles_removed_and_cache_updated]\<rparr>)"
      "c' = \<lparr>profiles = Some (set_order e (set_difference P (stale_profiles e P F))),
             last_updated = Some (clock e (ticks w + length (stale_profiles e P F)))\<rparr>"
      "attempts notifs = map (\<lambda>x. (x, ''Left Segment'')) (stale_profiles e P F)"
      "list_all is_notification notifs"
      by auto
    note n = notification_no_store [OF r(4)]
    have s: "set (set_order e (set_difference P (stale_profiles e P F))) = set P \<inter> set F"
      using assms(1) by (auto simp: set_order_set set_set_difference set_stale_profiles)
    show ?thesis
      by (rule that [of "w\<lparr>cache_file := Json c',
                    ticks := Suc (ticks w + length (stale_profiles e P F)),
                    trace := trace w @ [Open_read, Log INFO (Stale_profiles_removed (stale_profiles e P F))]
                              @ notifs @ [Write c', Log INFO Stale_profiles_removed_and_cache_updated]\<rparr>"
                       c' "set_order e (set_difference P (stale_profiles e P F))"
                       "Log INFO (Stale_profiles_removed (stale_profiles e P F)) # notifs"
                       "[Write c', Log INFO Stale_profiles_removed_and_cache_updated]"])
         (use False assms r n s in auto)
  qed
qed

lemma fetch_profiles_effect:
  assumes "fetch_profiles g w0 = Some (r, w)"
  obtains ftr where "w = w0\<lparr>trace := trace w0 @ ftr\<rparr>" "list_all is_fetch_io ftr"
    "(\<exists>l s t. Log l (Failed_to_fetch_profiles s t) \<in> set ftr) \<longrightarrow> r = Inr []"
  using fetch_pages_effect [of g "Some segment_url" "[]" w0 "(r, w)"] assms
  by (auto simp: fetch_profiles_def)

lemma run_summary:
  assumes "iteration_ok e" "fetch_profiles g w0 = Some (Inr F, w)" "F \<noteq> []"
    "writable w0" "prior_members (cache_file w0) = Some P"
  obtains w1 w2 c1 c2 P1 P2 ftr pre1 post1 pre2 post2 where
    "w = w0\<lparr>trace := trace w0 @ ftr\<rparr>" "list_all is_fetch_io ftr"
    "update_cache e F w = (Inr (), w1)"
    "remove_stale_profiles e F w1 = (Inr (), w2)"
    "main g e w0 = Some (Inr (), w2)"
    "cache_file w1 = Json c1" "profiles c1 = Some P1" "set P1 = set P \<union> set F"
    "cache_file w2 = Json c2" "profiles c2 = Some P2" "set P2 = set F"
    "set (stale_profiles e P1 F) = set P - set F"
    "trace w1 = trace w @ Open_read # pre1 @ post1"
    "trace w2 = trace w1 @ Open_read # pre2 @ post2"
    "attempts pre1 = map (\<lambda>x. (x, ''Joined Segment'')) (new_profiles e F P)"
    "attempts pre2 = map (\<lambda>x. (x, ''Left Segment'')) (stale_profiles e P1 F)"
    "writes pre1 = []" "count_list pre1 Open_read = 0"
    "Log WARNING Cache_file_not_found_or_invalid \<notin> set pre1"
    "attempts post1 = []" "count_list post1 Open_read = 0"
    "Log WARNING Cache_file_not_found_or_invalid \<notin> set post1"
    "writes post1 = (if new_profiles e F P = [] then [] else [c1])"
    "writes pre2 = []" "count_list pre2 Open_read = 0"
    "Log WARNING Cache_file_not_found_or_invalid \<notin> set pre2"
    "attempts post2 = []" "count_list post2 Open_read = 0"
    "Log WARNING Cache_file_not_found_or_invalid \<notin> set post2"
    "writes post2 = (if stale_profiles e P1 F = [] then [] else [c2])"
    "cache_file w1 = (if new_profiles e F P = [] then cache_file w0
                      else Json \<lparr>profiles = Some (P @ new_profiles e F P),
                                 last_updated = Some (clock e (ticks w0 + length (new_profiles e F P)))\<rparr>)"
    "ticks w1 = (if new_profiles e F P = [] then ticks w0
                 else Suc (ticks w0 + length (new_profiles e F P)))"
    "cache_file w2 = (if stale_profiles e P1 F = [] then cache_file w1
                      else Json \<lparr>profiles = Some (set_order e (set_difference P1 (stale_profiles e P1 F))),
                                 last_updated = Some (clock e (ticks w1 + length (stale_profiles e P1 F)))\<rparr>)"
    "ticks w2 = (if stale_profiles e P1 F = [] then ticks w1
                 else Suc (ticks w1 + length (stale_profiles e P1 F)))"
    "writable w2"
proof -
  from fetch_profiles_effect [OF assms(2)] obtain ftr where
    f: "w = w0\<lparr>trace := trace w0 @ ftr\<rparr>" "list_all is_fetch_io ftr"
    by blast
  have w: "writable w" "prior_members (cache_file w) = Some P" "cache_file w = cache_file w0"
    "ticks w = ticks w0"
    using assms(4,5) f(1) by simp_all
  from update_cache_summary [OF assms(1) w(1) w(2) assms(3)]
  obtain w1 c1 P1 pre1 post1 where a:
    "update_cache e F w = (Inr (), w1)" "writable w1"
    "cache_file w1 = Json c1" "profiles c1 = Some P1" "set P1 = set P \<union> set F"
    "trace w1 = trace w @ Open_read # pre1 @ post1"
    "attempts pre1 = map (\<lambda>x. (x, ''Joined Segment'')) (new_profiles e F P)"
    "writes pre1 = []" "count_list pre1 Open_read = 0"
    "Log WARNING Cache_file_not_found_or_invalid \<notin> set pre1"
    "attempts post1 = []" "count_list post1 Open_read = 0"
    "Log WARNING Cache_file_not_found_or_invalid \<notin> set post1"
    "writes post1 = (if new_profiles e F P = [] then [] else [c1])"
    "cache_file w1 = (if new_profiles e F P = [] then cache_file w
                      else Json \<lparr>profiles = Some (P @ new_profiles e F P),
                                 last_updated = Some (clock e (ticks w + length (new_profiles e F P)))\<rparr>)"
    "ticks w1 = (if new_profiles e F P = [] then ticks w
                 else Suc (ticks w + length (new_profiles e F P)))"
    by blast
  from remove_stale_profiles_summary [OF assms(1) a(2) a(3) a(4), of F]
  obtain w2 c2 P2 pre2 post2 where b:
    "remove_stale_profiles e F w1 = (Inr (), w2)" "writable w2"
    "cache_file w2 = Json c2" "profiles c2 = Some P2" "set P2 = set P1 \<inter> set F"
    "trace w2 = trace w1 @ Open_read # pre2 @ post2"
    "attempts pre2 = map (\<lambda>x. (x, ''Left Segment'')) (stale_profiles e P1 F)"
    "writes pre2 = []" "count_list pre2 Open_read = 0"
    "Log WARNING Cache_file_not_found_or_invalid \<notin> set pre2"
    "attempts post2 = []" "count_list post2 Open_read = 0"
    "Log WARNING Cache_file_not_found_or_invalid \<notin> set post2"
    "writes post2 = (if stale_profiles e P1 F = [] then [] else [c2])"
    "cache_file w2 = (if stale_profiles e P1 F = [] then cache_file w1
                      else Json \<lparr>profiles = Some (set_order e (set_difference P1 (stale_profiles e P1 F))),
                                 last_updated = Some (clock e (ticks w1 + length (stale_profiles e P1 F)))\<rparr>)"
    "ticks w2 = (if stale_profiles e P1 F = [] then ticks w1
                 else Suc (ticks w1 + length (stale_profiles e P1 F)))"
    by blast
  have m: "main g e w0 = Some (Inr (), w2)"
    using assms(2,3) a(1) b(1) by (simp add: main_def)
  have s: "set (stale_profiles e P1 F) = set P - set F"
    using set_stale_profiles [OF assms(1), of P1 F] a(5) by auto
  have p2: "set P2 = set F"
    using b(5) a(5) by auto
  show ?thesis
    using that [OF f(1) f(2) a(1) b(1) m a(3) a(4) a(5) b(3) b(4) p2 s a(6) b(6) a(7) b(7)
        a(8) a(9) a(10) a(11) a(12) a(13) a(14) b(8) b(9) b(10) b(11) b(12) b(13) b(14)]
      a(15) a(16) b(15) b(16) b(2) w(3) w(4)
    by simp
qed

lemma iteration_ok_example_env: "iteration_ok example_env"
  by (simp add: iteration_ok_def example_env_def)

lemma fetch_profiles_one_page:
  "fetch_profiles (one_page F) w = Some (Inr F, w\<lparr>trace := trace w @ [Get segment_url]\<rparr>)"
  by (simp add: fetch_profiles_def fetch_pages.simps one_page_def segment_url_def)

lemma update_cache_raises:
  assumes "prior_members (cache_file w) = None"
  shows "\<exists>x. update_cache e F w = (Inl x, w\<lparr>trace := trace w @ [Open_read]\<rparr>)"
  using assms
  by (cases "cache_file w")
     (simp_all add: update_cache_def read_cache_def logging_def Let_def split: shape.splits)

lemma update_cache_write_fails:
  assumes "prior_members (cache_file w) = Some P" "new_profiles e F P \<noteq> []" "\<not> writable w"
  shows "\<exists>notifs.
           update_cache e F w =
             (Inl OSError, w\<lparr>ticks := Suc (ticks w + length (new_profiles e F P)),
                        trace := trace w @ [Open_read, Log INFO (New_profiles_added (new_profiles e F P))]
                                  @ notifs\<rparr>)
           \<and> list_all is_notification notifs"
proof -
  let ?new = "new_profiles e F P"
  let ?w2 = "w\<lparr>trace := trace w @ [Open_read, Log INFO (New_profiles_added ?new)]\<rparr>"
  obtain notifs where n:
    "push_events e ''Joined Segment'' ?new ?w2 =
       ?w2\<lparr>ticks := ticks ?w2 + length ?new, trace := trace ?w2 @ notifs\<rparr>"
    "list_all is_notification notifs"
    using push_events_effect by blast
  show ?thesis
    apply (rule exI [of _ notifs])
    using assms n
    by (cases "cache_file w")
       (simp_all add: update_cache_def read_cache_def write_cache_def logging_def now_def Let_def)
qed

lemma remove_stale_profiles_write_fails:
  assumes "cache_file w = Json c" "stale_profiles e (cached_profiles c) F \<noteq> []" "\<not> writable w"
  shows "\<exists>notifs.
           remove_stale_profiles e F w =
             (Inl OSError, w\<lparr>ticks := Suc (ticks w + length (stale_profiles e (cached_profiles c) F)),
                        trace := trace w @ [Open_read,
                                   Log INFO (Stale_profiles_removed (stale_profiles e (cached_profiles c) F))]
                                  @ notifs\<rparr>)
           \<and> list_all is_notification notifs"
proof -
  let ?stale = "stale_profiles e (cached_profiles c) F"
  let ?w2 = "w\<lparr>trace := trace w @ [Open_read, Log INFO (Stale_profiles_removed ?stale)]\<rparr>"
  obtain notifs where n:
    "push_events e ''Left Segment'' ?stale ?w2 =
       ?w2\<lparr>ticks := ticks ?w2 + length ?stale, trace := trace ?w2 @ notifs\<rparr>"
    "list_all is_notification notifs"
    using push_events_effect by blast
  have c: "(case profiles c of None \<Rightarrow> [] | Some ps \<Rightarrow> ps) = cached_profiles c"
    by (simp add: cached_profiles_def)
  show ?thesis
    apply (rule exI [of _ notifs])
    using assms n
    by (simp add: remove_stale_profiles_def read_cache_def write_cache_def logging_def now_def Let_def c)
qed

lemma update_cache_no_warning:
  "\<exists>tr. trace (snd (update_cache e F w)) = trace w @ tr
        \<and> Log WARNING Cache_file_not_found_or_invalid \<notin> set tr"
proof (cases "prior_members (cache_file w)")
  case None
  from update_cache_raises [OF None, of e F] obtain x where
    "update_cache e F w = (Inl x, w\<lparr>trace := trace w @ [Open_read]\<rparr>)" by blast
  then show ?thesis by (intro exI [of _ "[Open_read]"]) simp
next
  case (Some P)
  show ?thesis
  proof (cases "new_profiles e F P = []")
    case True
    from update_cache_unchanged [OF Some True] show ?thesis
      by (intro exI [of _ "[Open_read, Log INFO No_new_profiles_to_add]"]) simp
  next
    case False
    show ?thesis
    proof (cases "writable w")
      case True
      from update_cache_changed [OF Some False True] obtain notifs c where r:
        "update_cache e F w =
           (Inr (), w\<lparr>cache_file := Json c,
                      ticks := Suc (ticks w + length (new_profiles e F P)),
                      trace := trace w @ [Open_read, Log INFO (New_profiles_added (new_profiles e F P))]
                                @ notifs @ [Write c, Log INFO Local_cache_updated]\<rparr>)"
        "list_all is_notification notifs"
        by blast
      from r(1) notification_no_store [OF r(2)] show ?thesis
        by (intro exI [of _ "[Open_read, Log INFO (New_profiles_added (new_profiles e F P))]
                                @ notifs @ [Write c, Log INFO Local_cache_updated]"]) simp
    next
      case W: False
      from update_cache_write_fails [OF Some False W] obtain notifs where r:
        "update_cache e F w =
           (Inl OSError, w\<lparr>ticks := Suc (ticks w + length (new_profiles e F P)),
                      trace := trace w @ [Open_read, Log INFO (New_profiles_added (new_profiles e F P))]
                                @ notifs\<rparr>)"
        "list_all is_notification notifs"
        by blast
      from r(1) notification_no_store [OF r(2)] show ?thesis
        by (intro exI [of _ "[Open_read, Log INFO (New_profiles_added (new_profiles e F P))]
                                @ notifs"]) simp
    qed
  qed
qed

lemma update_cache_leaves_json:
  assumes "iteration_ok e" "F \<noteq> []" "update_cache e F w = (Inr u, w1)"
  shows "\<exists>c. cache_file w1 = Json c"
proof (cases "prior_members (cache_file w)")
  case None
  from update_cache_raises [OF None, of e F] assms(3) show ?thesis by auto
next
  case (Some P)
  show ?thesis
  proof (cases "new_profiles e F P = []")
    case True
    with assms(1) have "set F \<subseteq> set P"
      using set_new_profiles [of e F P] by auto
    with assms(2) have "P \<noteq> []" by auto
    with Some obtain c where "cache_file w = Json c"
      by (cases "cache_file w") auto
    with update_cache_unchanged [OF Some True] assms(3) show ?thesis by auto
  next
    case False
    show ?thesis
    proof (cases "writable w")
      case True
      from update_cache_changed [OF Some False True] assms(3) show ?thesis by auto
    next
      case W: False
      from update_cache_write_fails [OF Some False W] assms(3) show ?thesis by auto
    qed
  qed
qed

lemma remove_stale_profiles_no_warning:
  assumes "cache_file w = Json c"
  shows "\<exists>tr. trace (snd (remove_stale_profiles e F w)) = trace w @ tr
           \<and> Log WARNING Cache_file_not_found_or_invalid \<notin> set tr"
proof (cases "stale_profiles e (cached_profiles c) F = []")
  case True
  from remove_stale_profiles_unchanged [OF assms True] show ?thesis
    by (intro exI [of _ "[Open_read, Log INFO No_stale_profiles_to_remove]"]) simp
next
  case False
  show ?thesis
  proof (cases "writable w")
    case True
    from remove_stale_profiles_changed [OF assms False True] obtain notifs c' where r:
      "remove_stale_profiles e F w =
         (Inr (), w\<lparr>cache_file := Json c',
                    ticks := Suc (ticks w + length (stale_profiles e (cached_profiles c) F)),
                    trace := trace w @ [Open_read,
                               Log INFO (Stale_profiles_removed (stale_profiles e (cached_profiles c) F))]
                              @ notifs @ [Write c', Log INFO Stale_profiles_removed_and_cache_updated]\<rparr>)"
      "list_all is_notification notifs"
      by blast
    from r(1) notification_no_store [OF r(2)] show ?thesis
      by (intro exI [of _ "[Open_read,
                               Log INFO (Stale_profiles_removed (stale_profiles e (cached_profiles c) F))]
                              @ notifs @ [Write c', Log INFO Stale_profiles_removed_and_cache_updated]"]) simp
  next
    case W: False
    from remove_stale_profiles_write_fails [OF assms False W] obtain notifs where r:
      "remove_stale_profiles e F w =
         (Inl OSError, w\<lparr>ticks := Suc (ticks w + length (stale_profiles e (cached_profiles c) F)),
                    trace := trace w @ [Open_read,
                               Log INFO (Stale_profiles_removed (stale_profiles e (cached_profiles c) F))]
                              @ notifs\<rparr>)"
      "list_all is_notification notifs"
      by blast
    from r(1) notification_no_store [OF r(2)] show ?thesis
      by (intro exI [of _ "[Open_read,
                               Log INFO (Stale_profiles_removed (stale_profiles e (cached_profiles c) F))]
                              @ notifs"]) simp
  qed
qed

lemma example_run:
  "main (one_page [''b@x.org'', ''c@x.org'']) example_env example_world = Some (Inr (), example_after)"
  by (simp add: main_def fetch_profiles_one_page example_world_def example_env_def example_after_def
      update_cache_def remove_stale_profiles_def read_cache_def write_cache_def
      new_profiles_def stale_profiles_def set_difference_def
      push_event_to_klaviyo_def now_def logging_def Let_def eval_nat_numeral)

lemma fetch_profiles_failing_page:
  "fetch_profiles failing_page w =
     Some (Inr [], w\<lparr>trace := trace w @ [Get segment_url,
             Log ERROR (Failed_to_fetch_profiles 500 ''Internal Server Error'')]\<rparr>)"
  unfolding fetch_profiles_def
  by (rule fetch_pages_failure) (simp_all add: segment_url_def failing_page_def)

lemma set_order_empty: "iteration_ok e \<Longrightarrow> set_order e [] = []"
  by (simp add: set_order_Nil)

lemma stale_profiles_empty: "iteration_ok e \<Longrightarrow> stale_profiles e [] F = []"
  by (simp add: stale_profiles_def set_difference_def set_order_empty)

lemma phases_summary:
  assumes "iteration_ok e" "writable w" "prior_members (cache_file w) = Some P"
  obtains w1 w2 adding removing P1 P2 where
    "update_cache e F w = (Inr (), w1)" "remove_stale_profiles e F w1 = (Inr (), w2)"
    "trace w1 = trace w @ adding" "trace w2 = trace w1 @ removing"
    "attempts adding = map (\<lambda>x. (x, ''Joined Segment'')) (new_profiles e F P)"
    "attempts removing = map (\<lambda>x. (x, ''Left Segment'')) (stale_profiles e P1 F)"
    "prior_members (cache_file w1) = Some P1" "set P1 = set P \<union> set F"
    "prior_members (cache_file w2) = Some P2" "set P2 = set P1 \<inter> set F"
proof -
  let ?new = "new_profiles e F P"
  have "\<exists>w1 adding P1. update_cache e F w = (Inr (), w1) \<and> writable w1
          \<and> trace w1 = trace w @ adding
          \<and> attempts adding = map (\<lambda>x. (x, ''Joined Segment'')) ?new
          \<and> prior_members (cache_file w1) = Some P1 \<and> set P1 = set P \<union> set F"
  proof (cases "?new = []")
    case True
    with assms(1) have sub: "set F \<subseteq> set P"
      using set_new_profiles [of e F P] by auto
    from update_cache_unchanged [OF assms(3) True] assms(2,3) True sub show ?thesis
      by (intro exI [of _ "w\<lparr>trace := trace w @ [Open_read, Log INFO No_new_profiles_to_add]\<rparr>"]
                exI [of _ "[Open_read, Log INFO No_new_profiles_to_add]"] exI [of _ P]) auto
  next
    case False
    from update_cache_changed [OF assms(3) False assms(2)]
    obtain notifs c where r:
      "update_cache e F w =
         (Inr (), w\<lparr>cache_file := Json c,
                    ticks := Suc (ticks w + length ?new),
                    trace := trace w @ [Open_read, Log INFO (New_profiles_added ?new)]
                              @ notifs @ [Write c, Log INFO Local_cache_updated]\<rparr>)"
      "c = \<lparr>profiles = Some (P @ ?new),
            last_updated = Some (clock e (ticks w + length ?new))\<rparr>"
      "attempts notifs = map (\<lambda>x. (x, ''Joined Segment'')) ?new"
      by blast
    from r assms(2) set_new_profiles [OF assms(1), of F P] show ?thesis
      by (intro exI [of _ "w\<lparr>cache_file := Json c,
                    ticks := Suc (ticks w + length ?new),
                    trace := trace w @ [Open_read, Log INFO (New_profiles_added ?new)]
                              @ notifs @ [Write c, Log INFO Local_cache_updated]\<rparr>"]
                exI [of _ "[Open_read, Log INFO (New_profiles_added ?new)]
                              @ notifs @ [Write c, Log INFO Local_cache_updated]"]
                exI [of _ "P @ ?new"]) (auto simp: attempts_append)
  qed
  then obtain w1 :: world and adding :: "io list" and P1 :: "identity list" where a:
    "update_cache e F w = (Inr (), w1)" "writable w1"
    "trace w1 = trace w @ adding"
    "attempts adding = map (\<lambda>x. (x, ''Joined Segment'')) ?new"
    "prior_members (cache_file w1) = Some P1" "set P1 = set P \<union> set F"
    by blast
  have "\<exists>w2 removing P2. remove_stale_profiles e F w1 = (Inr (), w2)
          \<and> trace w2 = trace w1 @ removing
          \<and> attempts removing = map (\<lambda>x. (x, ''Left Segment'')) (stale_profiles e P1 F)
          \<and> prior_members (cache_file w2) = Some P2 \<and> set P2 = set P1 \<inter> set F"
  proof (cases "cache_file w1")
    case FileNotFound
    with a(5) have P1: "P1 = []" by simp
    from FileNotFound have "cache_file w1 = FileNotFound \<or> cache_file w1 = NotJson" by simp
    from remove_stale_profiles_skipped [OF this, of e F] FileNotFound show ?thesis
      unfolding P1
      by (intro exI [of _ "w1\<lparr>trace := trace w1 @ [Open_read, Log WARNING Cache_file_not_found_or_invalid]\<rparr>"]
                exI [of _ "[Open_read, Log WARNING Cache_file_not_found_or_invalid]"] exI [of _ "[]"])
         (simp add: stale_profiles_empty [OF assms(1)])
  next
    case NotJson
    with a(5) have P1: "P1 = []" by simp
    from NotJson have "cache_file w1 = FileNotFound \<or> cache_file w1 = NotJson" by simp
    from remove_stale_profiles_skipped [OF this, of e F] NotJson show ?thesis
      unfolding P1
      by (intro exI [of _ "w1\<lparr>trace := trace w1 @ [Open_read, Log WARNING Cache_file_not_found_or_invalid]\<rparr>"]
                exI [of _ "[Open_read, Log WARNING Cache_file_not_found_or_invalid]"] exI [of _ "[]"])
         (simp add: stale_profiles_empty [OF assms(1)])
  next
    case Unreadable
    with a(5) show ?thesis by simp
  next
    case NotText
    with a(5) show ?thesis by simp
  next
    case (JsonOther s)
    with a(5) show ?thesis by simp
  next
    case (Json c)
    with a(5) have pc: "profiles c = Some P1" by simp
    show ?thesis
    proof (rule remove_stale_profiles_summary [OF assms(1) a(2) Json pc, of F], goal_cases)
      case (1 w2 c2 P2 pre post)
      have t: "trace w2 = trace w1 @ (Open_read # pre @ post)"
        using 1(6) by simp
      have at: "attempts (Open_read # pre @ post) = map (\<lambda>x. (x, ''Left Segment'')) (stale_profiles e P1 F)"
        using 1(7,11) by (simp add: attempts_append)
      have pm: "prior_members (cache_file w2) = Some P2"
        using 1(3,4) by simp
      from 1(1) t at pm 1(5) show ?case by blast
    qed
  qed
  then obtain w2 :: world and removing :: "io list" and P2 :: "identity list" where b:
    "remove_stale_profiles e F w1 = (Inr (), w2)"
    "trace w2 = trace w1 @ removing"
    "attempts removing = map (\<lambda>x. (x, ''Left Segment'')) (stale_profiles e P1 F)"
    "prior_members (cache_file w2) = Some P2" "set P2 = set P1 \<inter> set F"
    by blast
  from a(1) b(1) a(3) b(2) a(4) b(3) a(5,6) b(4,5) show ?thesis
    by (rule that)
qed

lemma fetch_pages_exception:
  assumes "fetch_pages g url acc w = Some y"
  shows "\<forall>x. fst y = Inl x \<longrightarrow> x = RequestException"
proof (rule fetch_pages.raw_induct
    [where P = "\<lambda>g url acc w y. \<forall>x. fst y = Inl x \<longrightarrow> x = RequestException", OF _ assms],
    goal_cases)
  case (1 fetch_pages g url acc w y)
  show ?case
  proof (cases url)
    case None
    with 1(2) show ?thesis by auto
  next
    case (Some u)
    show ?thesis
    proof (cases "u = []")
      case True
      with Some 1(2) show ?thesis by auto
    next
      case False
      show ?thesis
      proof (cases "g (trace w) u")
        case Get_raises
        with Some False 1(2) show ?thesis by auto
      next
        case (Response status_code reason body)
        show ?thesis
        proof (cases "status_code = 200")
          case True
          with Some False Response 1(2)
          have "fetch_pages g (next_link body) (acc @ data body) (w\<lparr>trace := trace w @ [Get u]\<rparr>) = Some y"
            by simp
          from 1(1) [OF this] show ?thesis .
        next
          case F2: False
          with Some False Response 1(2) show ?thesis by auto
        qed
      qed
    qed
  qed
qed

lemma fetch_profiles_exception:
  assumes "fetch_profiles g w0 = Some (Inl x, w)"
  shows "x = RequestException"
  using fetch_pages_exception [of g "Some segment_url" "[]" w0 "(Inl x, w)"] assms
  by (simp add: fetch_profiles_def)

lemma fetch_profiles_no_answer:
  "fetch_profiles no_answer w = Some (Inl RequestException, w\<lparr>trace := trace w @ [Get segment_url]\<rparr>)"
  by (simp add: fetch_profiles_def fetch_pages.simps no_answer_def segment_url_def)



section \<open>Reconciliation\<close>

text \<open>
  The theorems of this section are about a run whose fetch returned the non-empty list
  \<open>F\<close>, on a cache file that is writable and that the add phase can load: absent or
  not JSON (then \<open>P = []\<close>), or a dictionary whose \<open>profiles\<close> are \<open>P\<close>. They hold for
  every iteration order of Python's sets, every clock and every answer of the event API.
  The theorem of claim C2 is about the two phases themselves, for every fetched list.
\<close>

text \<open>
  Claim C1 (convergence). After the add phase and the removal phase the cache file holds
  exactly the fetched members, whatever it held before.
\<close>


theorem convergence:
  assumes "iteration_ok e" "fetch_profiles g w0 = Some (Inr F, w)" "F \<noteq> []"
    "writable w0" "prior_members (cache_file w0) = Some P"
  shows "\<exists>w' c ps. main g e w0 = Some (Inr (), w') \<and> cache_file w' = Json c
           \<and> profiles c = Some ps \<and> set ps = set F"
proof (rule run_summary [OF assms], goal_cases)
  case (1 w1 w2 c1 c2 P1 P2 ftr pre1 post1 pre2 post2)
  from 1(5,9,10,11) show ?case by blast
qed

theorem convergence_witness:
  "iteration_ok example_env
   \<and> fetch_profiles (one_page [''b@x.org'', ''c@x.org'']) example_world =
       Some (Inr [''b@x.org'', ''c@x.org''], example_world\<lparr>trace := [Get segment_url]\<rparr>)
   \<and> writable example_world
   \<and> prior_members (cache_file example_world) = Some [''a@x.org'', ''b@x.org'']
   \<and> (\<exists>w' c ps. main (one_page [''b@x.org'', ''c@x.org'']) example_env example_world = Some (Inr (), w')
         \<and> cache_file w' = Json c \<and> profiles c = Some ps \<and> set ps = {''b@x.org'', ''c@x.org''})"
proof -
  have f: "fetch_profiles (one_page [''b@x.org'', ''c@x.org'']) example_world =
       Some (Inr [''b@x.org'', ''c@x.org''], example_world\<lparr>trace := [Get segment_url]\<rparr>)"
    by (simp add: fetch_profiles_one_page example_world_def)
  have w: "writable example_world" by (simp add: example_world_def)
  have p: "prior_members (cache_file example_world) = Some [''a@x.org'', ''b@x.org'']"
    by (simp add: example_world_def)
  show ?thesis
    using convergence [OF iteration_ok_example_env f _ w p] iteration_ok_example_env f w p
    by simp
qed

text \<open>
  Claim C2 (diff correctness). For every fetched list \<open>F\<close> and every cache with members
  \<open>P\<close>, the add phase posts "Joined Segment" for exactly the identities of \<open>F\<close> that are
  not in \<open>P\<close>. The removal phase reads the cache file again, as the add phase left it,
  computes its difference from that, and posts "Left Segment" for exactly the identities of
  \<open>P\<close> that are not in \<open>F\<close>. The two sets are disjoint, and the members left in the cache
  file are those of \<open>P\<close>, less the removed ones, plus the added ones. Identities are
  compared as strings, character by character. \<open>main\<close> runs the two phases for every
  fetched list that is not empty.
\<close>

theorem diff_correctness:
  assumes "iteration_ok e" "writable w" "prior_members (cache_file w) = Some P"
  shows "\<exists>w1 w2 adding removing added removed P1 P2.
           update_cache e F w = (Inr (), w1) \<and> remove_stale_profiles e F w1 = (Inr (), w2)
           \<and> trace w1 = trace w @ adding \<and> trace w2 = trace w1 @ removing
           \<and> attempts adding = map (\<lambda>x. (x, ''Joined Segment'')) added
           \<and> attempts removing = map (\<lambda>x. (x, ''Left Segment'')) removed
           \<and> set added = set F - set P \<and> set removed = set P - set F
           \<and> set added \<inter> set removed = {}
           \<and> prior_members (cache_file w1) = Some P1 \<and> set P1 = set P \<union> set added
           \<and> removed = stale_profiles e P1 F
           \<and> prior_members (cache_file w2) = Some P2
           \<and> set P2 = (set P - set removed) \<union> set added
           \<and> (F \<noteq> [] \<longrightarrow> (\<forall>g w0. fetch_profiles g w0 = Some (Inr F, w)
                  \<longrightarrow> main g e w0 = Some (Inr (), w2)))"
proof (rule phases_summary [OF assms, of F], goal_cases)
  case (1 w1 w2 adding removing P1 P2)
  let ?added = "new_profiles e F P" and ?removed = "stale_profiles e P1 F"
  have sa: "set ?added = set F - set P"
    by (rule set_new_profiles [OF assms(1)])
  have sr: "set ?removed = set P - set F"
    using set_stale_profiles [OF assms(1), of P1 F] 1(8) by auto
  have dj: "set ?added \<inter> set ?removed = {}"
    unfolding sa sr by auto
  have p1: "set P1 = set P \<union> set ?added"
    unfolding sa using 1(8) by auto
  have p2: "set P2 = (set P - set ?removed) \<union> set ?added"
    unfolding sa sr using 1(8,10) by auto
  have m: "F \<noteq> [] \<longrightarrow> (\<forall>g w0. fetch_profiles g w0 = Some (Inr F, w)
                  \<longrightarrow> main g e w0 = Some (Inr (), w2))"
    using 1(1,2) by (simp add: main_def)
  from 1(1,2,3,4,5,6) sa sr dj 1(7) p1 1(9) p2 m show ?case by blast
qed

theorem diff_correctness_witness:
  "iteration_ok example_env
   \<and> writable (example_world\<lparr>trace := [Get segment_url]\<rparr>)
   \<and> prior_members (cache_file (example_world\<lparr>trace := [Get segment_url]\<rparr>))
       = Some [''a@x.org'', ''b@x.org'']
   \<and> fetch_profiles (one_page [''b@x.org'', ''c@x.org'']) example_world =
       Some (Inr [''b@x.org'', ''c@x.org''], example_world\<lparr>trace := [Get segment_url]\<rparr>)
   \<and> (\<exists>w1 w2 adding removing added removed.
         update_cache example_env [''b@x.org'', ''c@x.org'']
            (example_world\<lparr>trace := [Get segment_url]\<rparr>) = (Inr (), w1)
         \<and> remove_stale_profiles example_env [''b@x.org'', ''c@x.org''] w1 = (Inr (), w2)
         \<and> trace w1 = [Get segment_url] @ adding \<and> trace w2 = trace w1 @ removing
         \<and> attempts adding = map (\<lambda>x. (x, ''Joined Segment'')) added
         \<and> attempts removing = map (\<lambda>x. (x, ''Left Segment'')) removed
         \<and> set added = {''c@x.org''} \<and> set removed = {''a@x.org''}
         \<and> main (one_page [''b@x.org'', ''c@x.org'']) example_env example_world = Some (Inr (), w2))"
proof -
  let ?w = "example_world\<lparr>trace := [Get segment_url]\<rparr>"
  have f: "fetch_profiles (one_page [''b@x.org'', ''c@x.org'']) example_world =
       Some (Inr [''b@x.org'', ''c@x.org''], ?w)"
    by (simp add: fetch_profiles_one_page example_world_def)
  have w: "writable ?w" by (simp add: example_world_def)
  have p: "prior_members (cache_file ?w) = Some [''a@x.org'', ''b@x.org'']"
    by (simp add: example_world_def)
  have d: "set [''b@x.org'', ''c@x.org''] - set [''a@x.org'', ''b@x.org''] = {''c@x.org''}"
    "set [''a@x.org'', ''b@x.org''] - set [''b@x.org'', ''c@x.org''] = {''a@x.org''}"
    by auto
  from diff_correctness [OF iteration_ok_example_env w p, of "[''b@x.org'', ''c@x.org'']"]
  obtain w1 w2 :: world and adding removing :: "io list" and added removed :: "identity list" where r:
    "update_cache example_env [''b@x.org'', ''c@x.org''] ?w = (Inr (), w1)"
    "remove_stale_profiles example_env [''b@x.org'', ''c@x.org''] w1 = (Inr (), w2)"
    "trace w1 = trace ?w @ adding" "trace w2 = trace w1 @ removing"
    "attempts adding = map (\<lambda>x. (x, ''Joined Segment'')) added"
    "attempts removing = map (\<lambda>x. (x, ''Left Segment'')) removed"
    "set added = set [''b@x.org'', ''c@x.org''] - set [''a@x.org'', ''b@x.org'']"
    "set removed = set [''a@x.org'', ''b@x.org''] - set [''b@x.org'', ''c@x.org'']"
    "[''b@x.org'', ''c@x.org''] \<noteq> [] \<longrightarrow> (\<forall>g w0. fetch_profiles g w0 = Some (Inr [''b@x.org'', ''c@x.org''], ?w)
                  \<longrightarrow> main g example_env w0 = Some (Inr (), w2))"
    by blast
  have m: "main (one_page [''b@x.org'', ''c@x.org'']) example_env example_world = Some (Inr (), w2)"
    using r(9) f by blast
  have t: "trace w1 = [Get segment_url] @ adding"
    using r(3) by simp
  have s: "set added = {''c@x.org''}" "set removed = {''a@x.org''}"
    using r(7,8) unfolding d by simp_all
  from iteration_ok_example_env w p f r(1,2) t r(4,5,6) s m show ?thesis by blast
qed

text \<open>
  Claim C6 (notification per delta). The events posted in a run are one "Joined Segment"
  for each added identity followed by one "Left Segment" for each removed identity, and
  nothing else: as many as the two differences have elements, no identity twice.
\<close>


theorem notification_per_delta:
  assumes "iteration_ok e" "fetch_profiles g w0 = Some (Inr F, w)" "F \<noteq> []"
    "writable w0" "prior_members (cache_file w0) = Some P"
  shows "\<exists>w' sent added removed.
           main g e w0 = Some (Inr (), w') \<and> trace w' = trace w0 @ sent
           \<and> attempts sent = map (\<lambda>x. (x, ''Joined Segment'')) added
                             @ map (\<lambda>x. (x, ''Left Segment'')) removed
           \<and> distinct added \<and> set added = set F - set P \<and> length added = card (set F - set P)
           \<and> distinct removed \<and> set removed = set P - set F
           \<and> length removed = card (set P - set F)"
proof (rule run_summary [OF assms], goal_cases)
  case (1 w1 w2 c1 c2 P1 P2 ftr pre1 post1 pre2 post2)
  let ?sent = "ftr @ Open_read # pre1 @ post1 @ Open_read # pre2 @ post2"
  have t: "trace w2 = trace w0 @ ?sent"
    using 1(1,13,14) by simp
  have a: "attempts ?sent = map (\<lambda>x. (x, ''Joined Segment'')) (new_profiles e F P)
             @ map (\<lambda>x. (x, ''Left Segment'')) (stale_profiles e P1 F)"
    using 1(15,16,20,27) fetch_io_no_store [OF 1(2)] by (simp add: attempts_append)
  have n: "distinct (new_profiles e F P)" "set (new_profiles e F P) = set F - set P"
    using assms(1) by (simp_all add: distinct_new_profiles set_new_profiles)
  have s: "distinct (stale_profiles e P1 F)"
    using assms(1) by (simp add: distinct_stale_profiles)
  have ln: "length (new_profiles e F P) = card (set F - set P)"
    using distinct_card [OF n(1)] n(2) by simp
  have ls: "length (stale_profiles e P1 F) = card (set P - set F)"
    using distinct_card [OF s] 1(12) by simp
  show ?case
    using 1(5) t a n s 1(12) ln ls by blast
qed

theorem notification_per_delta_witness:
  "iteration_ok example_env
   \<and> fetch_profiles (one_page [''b@x.org'', ''c@x.org'']) example_world =
       Some (Inr [''b@x.org'', ''c@x.org''], example_world\<lparr>trace := [Get segment_url]\<rparr>)
   \<and> writable example_world
   \<and> prior_members (cache_file example_world) = Some [''a@x.org'', ''b@x.org'']
   \<and> (\<exists>w' sent added removed.
         main (one_page [''b@x.org'', ''c@x.org'']) example_env example_world = Some (Inr (), w')
         \<and> trace w' = trace example_world @ sent
         \<and> attempts sent = map (\<lambda>x. (x, ''Joined Segment'')) added
                           @ map (\<lambda>x. (x, ''Left Segment'')) removed
         \<and> distinct added \<and> set added = {''c@x.org''} \<and> length added = 1
         \<and> distinct removed \<and> set removed = {''a@x.org''} \<and> length removed = 1)"
proof -
  have f: "fetch_profiles (one_page [''b@x.org'', ''c@x.org'']) example_world =
       Some (Inr [''b@x.org'', ''c@x.org''], example_world\<lparr>trace := [Get segment_url]\<rparr>)"
    by (simp add: fetch_profiles_one_page example_world_def)
  have w: "writable example_world" by (simp add: example_world_def)
  have p: "prior_members (cache_file example_world) = Some [''a@x.org'', ''b@x.org'']"
    by (simp add: example_world_def)
  have d: "set [''b@x.org'', ''c@x.org''] - set [''a@x.org'', ''b@x.org''] = {''c@x.org''}"
    "set [''a@x.org'', ''b@x.org''] - set [''b@x.org'', ''c@x.org''] = {''a@x.org''}"
    by auto
  have n: "[''b@x.org'', ''c@x.org''] \<noteq> []" by simp
  from notification_per_delta [OF iteration_ok_example_env f n w p]
  have "\<exists>w' sent added removed.
         main (one_page [''b@x.org'', ''c@x.org'']) example_env example_world = Some (Inr (), w')
         \<and> trace w' = trace example_world @ sent
         \<and> attempts sent = map (\<lambda>x. (x, ''Joined Segment'')) added
                           @ map (\<lambda>x. (x, ''Left Segment'')) removed
         \<and> distinct added \<and> set added = {''c@x.org''} \<and> length added = 1
         \<and> distinct removed \<and> set removed = {''a@x.org''} \<and> length removed = 1"
    unfolding d by simp
  with iteration_ok_example_env f w p show ?thesis by blast
qed

text \<open>
  Claim C9 (last_updated). When the fetched set equals the cached set the run writes
  nothing: the cache file and with it \<open>last_updated\<close> stay as they were, and the clock is
  not even read. Otherwise the run writes the cache file, and the \<open>last_updated\<close> it
  leaves is the last reading of the clock made in the run.
\<close>


theorem last_updated_discipline:
  assumes "iteration_ok e" "fetch_profiles g w0 = Some (Inr F, w)" "F \<noteq> []"
    "writable w0" "prior_members (cache_file w0) = Some P"
  shows "\<exists>w' done.
           main g e w0 = Some (Inr (), w') \<and> trace w' = trace w0 @ done
           \<and> (if set F - set P = {} \<and> set P - set F = {}
               then cache_file w' = cache_file w0 \<and> ticks w' = ticks w0 \<and> writes done = []
               else \<exists>c. cache_file w' = Json c \<and> writes done \<noteq> [] \<and> last (writes done) = c
                      \<and> ticks w0 < ticks w'
                      \<and> last_updated c = Some (clock e (ticks w' - 1)))"
proof (rule run_summary [OF assms], goal_cases)
  case (1 w1 w2 c1 c2 P1 P2 ftr pre1 post1 pre2 post2)
  let ?new = "new_profiles e F P" and ?stale = "stale_profiles e P1 F"
  let ?done = "ftr @ Open_read # pre1 @ post1 @ Open_read # pre2 @ post2"
  have t: "trace w2 = trace w0 @ ?done"
    using 1(1,13,14) by simp
  have wr: "writes ?done = writes post1 @ writes post2"
    using 1(17,24) fetch_io_no_store [OF 1(2)] by (simp add: writes_append)
  have n: "(?new = []) = (set F - set P = {})"
    unfolding set_new_profiles [OF assms(1), of F P, symmetric] by simp
  have s: "(?stale = []) = (set P - set F = {})"
    unfolding 1(12) [symmetric] by simp
  have "if set F - set P = {} \<and> set P - set F = {}
        then cache_file w2 = cache_file w0 \<and> ticks w2 = ticks w0 \<and> writes ?done = []
        else \<exists>c. cache_file w2 = Json c \<and> writes ?done \<noteq> [] \<and> last (writes ?done) = c
               \<and> ticks w0 < ticks w2 \<and> last_updated c = Some (clock e (ticks w2 - 1))"
  proof (cases "?stale = []")
    case True
    note st = True
    show ?thesis
    proof (cases "?new = []")
      case True
      with st n s wr 1(23,30,31,32,33,34) show ?thesis by simp
    next
      case False
      with st n s have ne: "\<not> (set F - set P = {} \<and> set P - set F = {})" by simp
      have c1: "c1 = \<lparr>profiles = Some (P @ ?new),
                     last_updated = Some (clock e (ticks w0 + length ?new))\<rparr>"
        using False 1(6,31) by simp
      have "cache_file w2 = Json c1" "writes ?done = [c1]" "ticks w2 = Suc (ticks w0 + length ?new)"
        using False st wr 1(6,23,30,32,33,34) by simp_all
      moreover have "last_updated c1 = Some (clock e (ticks w0 + length ?new))"
        by (simp add: c1)
      ultimately have "cache_file w2 = Json c1" "writes ?done = [c1]"
        "ticks w2 = Suc (ticks w0 + length ?new)"
        "last_updated c1 = Some (clock e (ticks w0 + length ?new))"
        by simp_all
      with ne show ?thesis by simp
    qed
  next
    case False
    with s have ne: "\<not> (set F - set P = {} \<and> set P - set F = {})" by simp
    have c2: "c2 = \<lparr>profiles = Some (set_order e (set_difference P1 ?stale)),
                   last_updated = Some (clock e (ticks w1 + length ?stale))\<rparr>"
      using False 1(9,33) by simp
    have "cache_file w2 = Json c2" "writes ?done = writes post1 @ [c2]"
      "ticks w2 = Suc (ticks w1 + length ?stale)"
      "ticks w0 \<le> ticks w1"
      using False wr 1(9,30,32,34) by (simp_all split: if_splits)
    moreover have "last_updated c2 = Some (clock e (ticks w1 + length ?stale))"
      by (simp add: c2)
    ultimately have "cache_file w2 = Json c2" "writes ?done = writes post1 @ [c2]"
      "ticks w2 = Suc (ticks w1 + length ?stale)"
      "last_updated c2 = Some (clock e (ticks w1 + length ?stale))"
      "ticks w0 \<le> ticks w1"
      by simp_all
    with ne show ?thesis by simp
  qed
  with 1(5) t show ?thesis by blast
qed

theorem last_updated_discipline_witness:
  "iteration_ok example_env
   \<and> fetch_profiles (one_page [''b@x.org'', ''c@x.org'']) example_world =
       Some (Inr [''b@x.org'', ''c@x.org''], example_world\<lparr>trace := [Get segment_url]\<rparr>)
   \<and> writable example_world
   \<and> prior_members (cache_file example_world) = Some [''a@x.org'', ''b@x.org'']
   \<and> set [''b@x.org'', ''c@x.org''] - set [''a@x.org'', ''b@x.org''] \<noteq> {}
   \<and> (\<exists>w' done c.
         main (one_page [''b@x.org'', ''c@x.org'']) example_env example_world = Some (Inr (), w')
         \<and> trace w' = trace example_world @ done
         \<and> cache_file w' = Json c \<and> writes done \<noteq> [] \<and> last (writes done) = c
         \<and> ticks example_world < ticks w'
         \<and> last_updated c = Some (clock example_env (ticks w' - 1)))"
proof -
  have f: "fetch_profiles (one_page [''b@x.org'', ''c@x.org'']) example_world =
       Some (Inr [''b@x.org'', ''c@x.org''], example_world\<lparr>trace := [Get segment_url]\<rparr>)"
    by (simp add: fetch_profiles_one_page example_world_def)
  have w: "writable example_world" by (simp add: example_world_def)
  have p: "prior_members (cache_file example_world) = Some [''a@x.org'', ''b@x.org'']"
    by (simp add: example_world_def)
  have d: "set [''b@x.org'', ''c@x.org''] - set [''a@x.org'', ''b@x.org''] \<noteq> {}"
    by auto
  have n: "[''b@x.org'', ''c@x.org''] \<noteq> []" by simp
  from last_updated_discipline [OF iteration_ok_example_env f n w p] d
  have "\<exists>w' done c.
         main (one_page [''b@x.org'', ''c@x.org'']) example_env example_world = Some (Inr (), w')
         \<and> trace w' = trace example_world @ done
         \<and> cache_file w' = Json c \<and> writes done \<noteq> [] \<and> last (writes done) = c
         \<and> ticks example_world < ticks w'
         \<and> last_updated c = Some (clock example_env (ticks w' - 1))"
    by (simp only: if_False simp_thms) blast
  with iteration_ok_example_env f w p d show ?thesis by blast
qed

text \<open>
  Claim C7 (notification failures are isolated). The answers of the event API have no
  influence on a run beyond its log. With any other answers \<open>q\<close>, failures of every kind
  included, the run returns normally, attempts the "Joined Segment" event of every added
  identity and then the "Left Segment" event of every removed identity, each once, which
  are the attempts of the run with the original answers, and leaves the same cache file,
  which holds the fetched members.
\<close>

theorem notification_failure_isolation:
  assumes "iteration_ok e" "fetch_profiles g w0 = Some (Inr F, w)" "F \<noteq> []"
    "writable w0" "prior_members (cache_file w0) = Some P"
  shows "\<exists>w1 w2 sent sent' added removed c ps.
           main g e w0 = Some (Inr (), w1)
           \<and> main g (e\<lparr>http_post := q\<rparr>) w0 = Some (Inr (), w2)
           \<and> trace w1 = trace w0 @ sent \<and> distinct (attempts sent)
           \<and> trace w2 = trace w0 @ sent'
           \<and> attempts sent' = map (\<lambda>x. (x, ''Joined Segment'')) added
                               @ map (\<lambda>x. (x, ''Left Segment'')) removed
           \<and> distinct added \<and> set added = set F - set P
           \<and> distinct removed \<and> set removed = set P - set F
           \<and> attempts sent = attempts sent'
           \<and> attempts (trace w2) = attempts (trace w1)
           \<and> cache_file w2 = cache_file w1
           \<and> cache_file w1 = Json c \<and> profiles c = Some ps \<and> set ps = set F"
proof (rule run_summary [OF assms], goal_cases)
  case a: (1 w1 w2 c1 c2 P1 P2 ftr pre1 post1 pre2 post2)
  let ?e = "e\<lparr>http_post := q\<rparr>"
  have ok: "iteration_ok ?e"
    using assms(1) by (simp add: iteration_ok_def)
  show ?case
  proof (rule run_summary [OF ok assms(2-5)], goal_cases)
    case b: (1 v1 v2 d1 d2 Q1 Q2 ftr' pre1' post1' pre2' post2')
    have n: "new_profiles ?e F P = new_profiles e F P"
      by (simp add: new_profiles_def)
    have s: "stale_profiles ?e P1 F = stale_profiles e P1 F"
      by (simp add: stale_profiles_def)
    have f1: "cache_file v1 = cache_file w1" "ticks v1 = ticks w1"
      using a(31,32) b(31,32) n by simp_all
    have "d1 = c1"
      using a(6) b(6) f1(1) by simp
    then have Q: "Q1 = P1"
      using a(7) b(7) by simp
    have f2: "cache_file v2 = cache_file w2"
      using a(33) b(33) f1 s unfolding Q by simp
    let ?sent = "ftr @ Open_read # pre1 @ post1 @ Open_read # pre2 @ post2"
    let ?sent' = "ftr' @ Open_read # pre1' @ post1' @ Open_read # pre2' @ post2'"
    have t: "trace w2 = trace w0 @ ?sent"
      using a(1,13,14) by simp
    have at: "attempts ?sent = map (\<lambda>x. (x, ''Joined Segment'')) (new_profiles e F P)
                @ map (\<lambda>x. (x, ''Left Segment'')) (stale_profiles e P1 F)"
      using a(15,16,20,27) fetch_io_no_store [OF a(2)] by (simp add: attempts_append)
    have t': "trace v2 = trace w0 @ ?sent'"
      using b(1,13,14) by simp
    have at': "attempts ?sent'
                = map (\<lambda>x. (x, ''Joined Segment'')) (new_profiles e F P)
                @ map (\<lambda>x. (x, ''Left Segment'')) (stale_profiles e P1 F)"
      using b(15,16,20,27) fetch_io_no_store [OF b(2)] n s unfolding Q
      by (simp add: attempts_append)
    have same: "attempts ?sent = attempts ?sent'"
      by (simp only: at at')
    have eq: "attempts (trace v2) = attempts (trace w2)"
      unfolding t t' by (simp only: attempts_append [of "trace w0"] at at')
    have d: "distinct (attempts ?sent)"
      unfolding at
      using distinct_new_profiles [OF assms(1), of F P] distinct_stale_profiles [OF assms(1), of P1 F]
      by (auto simp: distinct_map inj_on_def)
    have dn: "distinct (new_profiles e F P)" "set (new_profiles e F P) = set F - set P"
      using assms(1) by (simp_all add: distinct_new_profiles set_new_profiles)
    have ds: "distinct (stale_profiles e P1 F)"
      using assms(1) by (simp add: distinct_stale_profiles)
    note facts = a(5) b(5) t d t' at' dn ds a(12) same eq f2 a(9,10,11)
    show ?case
      by (intro exI [of _ w2] exI [of _ v2] exI [of _ ?sent] exI [of _ ?sent']
                exI [of _ "new_profiles e F P"] exI [of _ "stale_profiles e P1 F"]
                exI [of _ c2] exI [of _ P2] conjI)
         (rule facts)+
  qed
qed

theorem notification_failure_isolation_witness:
  "iteration_ok example_env
   \<and> fetch_profiles (one_page [''b@x.org'', ''c@x.org'']) example_world =
       Some (Inr [''b@x.org'', ''c@x.org''], example_world\<lparr>trace := [Get segment_url]\<rparr>)
   \<and> writable example_world
   \<and> prior_members (cache_file example_world) = Some [''a@x.org'', ''b@x.org'']
   \<and> (\<exists>w1 w2 sent sent' added removed c ps.
         main (one_page [''b@x.org'', ''c@x.org'']) example_env example_world = Some (Inr (), w1)
         \<and> main (one_page [''b@x.org'', ''c@x.org''])
              (example_env\<lparr>http_post := \<lambda>tr email event_name. Post_raises\<rparr>) example_world
             = Some (Inr (), w2)
         \<and> trace w1 = trace example_world @ sent \<and> distinct (attempts sent)
         \<and> trace w2 = trace example_world @ sent'
         \<and> attempts sent' = map (\<lambda>x. (x, ''Joined Segment'')) added
                             @ map (\<lambda>x. (x, ''Left Segment'')) removed
         \<and> distinct added \<and> set added = {''c@x.org''}
         \<and> distinct removed \<and> set removed = {''a@x.org''}
         \<and> attempts sent = attempts sent'
         \<and> cache_file w2 = cache_file w1
         \<and> cache_file w1 = Json c \<and> profiles c = Some ps \<and> set ps = set [''b@x.org'', ''c@x.org''])"
proof -
  have f: "fetch_profiles (one_page [''b@x.org'', ''c@x.org'']) example_world =
       Some (Inr [''b@x.org'', ''c@x.org''], example_world\<lparr>trace := [Get segment_url]\<rparr>)"
    by (simp add: fetch_profiles_one_page example_world_def)
  have w: "writable example_world" by (simp add: example_world_def)
  have p: "prior_members (cache_file example_world) = Some [''a@x.org'', ''b@x.org'']"
    by (simp add: example_world_def)
  have n: "[''b@x.org'', ''c@x.org''] \<noteq> []" by simp
  have d: "set [''b@x.org'', ''c@x.org''] - set [''a@x.org'', ''b@x.org''] = {''c@x.org''}"
    "set [''a@x.org'', ''b@x.org''] - set [''b@x.org'', ''c@x.org''] = {''a@x.org''}"
    by auto
  from notification_failure_isolation [OF iteration_ok_example_env f n w p,
      of "\<lambda>tr email event_name. Post_raises"]
  obtain w1 w2 :: world and sent sent' :: "io list" and added removed :: "identity list"
    and c :: cache and ps :: "identity list" where r:
    "main (one_page [''b@x.org'', ''c@x.org'']) example_env example_world = Some (Inr (), w1)"
    "main (one_page [''b@x.org'', ''c@x.org''])
              (example_env\<lparr>http_post := \<lambda>tr email event_name. Post_raises\<rparr>) example_world
             = Some (Inr (), w2)"
    "trace w1 = trace example_world @ sent" "distinct (attempts sent)"
    "trace w2 = trace example_world @ sent'"
    "attempts sent' = map (\<lambda>x. (x, ''Joined Segment'')) added
                             @ map (\<lambda>x. (x, ''Left Segment'')) removed"
    "distinct added" "set added = set [''b@x.org'', ''c@x.org''] - set [''a@x.org'', ''b@x.org'']"
    "distinct removed" "set removed = set [''a@x.org'', ''b@x.org''] - set [''b@x.org'', ''c@x.org'']"
    "attempts sent = attempts sent'"
    "cache_file w2 = cache_file w1"
    "cache_file w1 = Json c" "profiles c = Some ps" "set ps = set [''b@x.org'', ''c@x.org'']"
    by blast
  note s = r(8,10) [unfolded d]
  note facts = iteration_ok_example_env f w p r(1-7) s(1) r(9) s(2) r(11-15)
  show ?thesis
    by (intro conjI exI [of _ w1] exI [of _ w2] exI [of _ sent] exI [of _ sent']
              exI [of _ added] exI [of _ removed] exI [of _ c] exI [of _ ps])
       (rule facts)+
qed

text \<open>
  Claim C8 (idempotence). A second run that fetches the same set after a first run finds
  nothing to add and nothing to remove: it reads the cache file in each phase, logs that
  there is nothing to do, and posts and writes nothing.
\<close>

theorem idempotence:
  assumes "iteration_ok e" "fetch_profiles g w0 = Some (Inr F, w)" "F \<noteq> []"
    "writable w0" "prior_members (cache_file w0) = Some P"
    and "main g e w0 = Some (r1, w1)"
    and "iteration_ok e'" "fetch_profiles g' w1 = Some (Inr F', w1')" "set F' = set F"
  shows "r1 = Inr ()
         \<and> (\<exists>c ps. cache_file w1 = Json c \<and> profiles c = Some ps
                \<and> new_profiles e' F' ps = [] \<and> stale_profiles e' ps F' = [])
         \<and> main g' e' w1 =
             Some (Inr (), w1\<lparr>trace := trace w1' @
                     [Open_read, Log INFO No_new_profiles_to_add,
                      Open_read, Log INFO No_stale_profiles_to_remove]\<rparr>)"
proof (rule run_summary [OF assms(1-5)], goal_cases)
  case (1 v1 w2 c1 c2 P1 P2 ftr pre1 post1 pre2 post2)
  from 1(5) assms(6) have r: "r1 = Inr ()" "w2 = w1" by simp_all
  have c: "cache_file w1 = Json c2" "profiles c2 = Some P2" "set P2 = set F"
    using 1(9,10,11) r(2) by simp_all
  from fetch_profiles_effect [OF assms(8)] obtain ftr' where
    f: "w1' = w1\<lparr>trace := trace w1 @ ftr'\<rparr>"
    by blast
  have n: "new_profiles e' F' P2 = []"
    using set_new_profiles [OF assms(7), of F' P2] c(3) assms(9) by simp
  have s: "stale_profiles e' P2 F' = []"
    using set_stale_profiles [OF assms(7), of P2 F'] c(3) assms(9) by simp
  have F': "F' \<noteq> []"
    using assms(3,9) by auto
  have p: "prior_members (cache_file w1') = Some P2"
    using f c(1,2) by simp
  have u: "update_cache e' F' w1' =
      (Inr (), w1'\<lparr>trace := trace w1' @ [Open_read, Log INFO No_new_profiles_to_add]\<rparr>)"
    by (rule update_cache_unchanged [OF p n])
  have cp: "cached_profiles c2 = P2"
    using c(2) by (simp add: cached_profiles_def)
  have m: "remove_stale_profiles e' F'
             (w1'\<lparr>trace := trace w1' @ [Open_read, Log INFO No_new_profiles_to_add]\<rparr>) =
      (Inr (), w1'\<lparr>trace := trace w1' @ [Open_read, Log INFO No_new_profiles_to_add]\<rparr>
                  \<lparr>trace := trace (w1'\<lparr>trace := trace w1' @ [Open_read, Log INFO No_new_profiles_to_add]\<rparr>)
                     @ [Open_read, Log INFO No_stale_profiles_to_remove]\<rparr>)"
    by (rule remove_stale_profiles_unchanged [of _ c2]) (simp_all add: f c(1) cp s)
  have "main g' e' w1 =
      Some (Inr (), w1\<lparr>trace := trace w1' @
                     [Open_read, Log INFO No_new_profiles_to_add,
                      Open_read, Log INFO No_stale_profiles_to_remove]\<rparr>)"
    using assms(8) F' u m f by (simp add: main_def)
  with r(1) c(1,2) n s show ?case by blast
qed

theorem idempotence_witness:
  "iteration_ok example_env
   \<and> fetch_profiles (one_page [''b@x.org'', ''c@x.org'']) example_world =
       Some (Inr [''b@x.org'', ''c@x.org''], example_world\<lparr>trace := [Get segment_url]\<rparr>)
   \<and> writable example_world
   \<and> prior_members (cache_file example_world) = Some [''a@x.org'', ''b@x.org'']
   \<and> main (one_page [''b@x.org'', ''c@x.org'']) example_env example_world = Some (Inr (), example_after)
   \<and> fetch_profiles (one_page [''c@x.org'', ''b@x.org'']) example_after =
       Some (Inr [''c@x.org'', ''b@x.org''],
             example_after\<lparr>trace := trace example_after @ [Get segment_url]\<rparr>)
   \<and> set [''c@x.org'', ''b@x.org''] = set [''b@x.org'', ''c@x.org'']
   \<and> main (one_page [''c@x.org'', ''b@x.org'']) example_env example_after =
       Some (Inr (), example_after\<lparr>trace := trace example_after @
               [Get segment_url, Open_read, Log INFO No_new_profiles_to_add,
                Open_read, Log INFO No_stale_profiles_to_remove]\<rparr>)"
proof -
  have f: "fetch_profiles (one_page [''b@x.org'', ''c@x.org'']) example_world =
       Some (Inr [''b@x.org'', ''c@x.org''], example_world\<lparr>trace := [Get segment_url]\<rparr>)"
    by (simp add: fetch_profiles_one_page example_world_def)
  have w: "writable example_world" by (simp add: example_world_def)
  have p: "prior_members (cache_file example_world) = Some [''a@x.org'', ''b@x.org'']"
    by (simp add: example_world_def)
  have n: "[''b@x.org'', ''c@x.org''] \<noteq> []" by simp
  have f': "fetch_profiles (one_page [''c@x.org'', ''b@x.org'']) example_after =
       Some (Inr [''c@x.org'', ''b@x.org''],
             example_after\<lparr>trace := trace example_after @ [Get segment_url]\<rparr>)"
    by (rule fetch_profiles_one_page)
  have s: "set [''c@x.org'', ''b@x.org''] = set [''b@x.org'', ''c@x.org'']" by auto
  from idempotence [OF iteration_ok_example_env f n w p example_run iteration_ok_example_env f' s]
  have "main (one_page [''c@x.org'', ''b@x.org'']) example_env example_after =
       Some (Inr (), example_after\<lparr>trace := trace example_after @
               [Get segment_url, Open_read, Log INFO No_new_profiles_to_add,
                Open_read, Log INFO No_stale_profiles_to_remove]\<rparr>)"
    by simp
  with iteration_ok_example_env f w p example_run f' s show ?thesis by blast
qed

text \<open>
  A run with one member to add and one to remove opens the cache file for reading twice
  and writes it twice, the first time before the "Left Segment" event is posted.
\<close>

theorem store_discipline_counterexample:
  "main (one_page [''b@x.org'', ''c@x.org'']) example_env example_world = Some (Inr (), example_after)
   \<and> count_list (trace example_after) Open_read = 2
   \<and> length (writes (trace example_after)) = 2
   \<and> trace example_after ! 5 =
       Write \<lparr>profiles = Some [''a@x.org'', ''b@x.org'', ''c@x.org''], last_updated = Some ''s''\<rparr>
   \<and> trace example_after ! 9 = Post ''a@x.org'' ''Left Segment'' ''ss''"
  using example_run by (simp add: example_after_def eval_nat_numeral)

text \<open>
  Claim C3 (store discipline), as the code has it: each of the two phases opens the cache
  file for reading once, at its start, and writes it once if it found a difference and not
  at all otherwise, after all the events of that phase. A run thus reads twice and writes
  up to twice.
\<close>

theorem store_discipline_per_phase:
  assumes "iteration_ok e" "fetch_profiles g w0 = Some (Inr F, w)" "F \<noteq> []"
    "writable w0" "prior_members (cache_file w0) = Some P"
  shows "\<exists>w1 w2 fetching joined saved1 leaving saved2.
           update_cache e F w = (Inr (), w1) \<and> remove_stale_profiles e F w1 = (Inr (), w2)
           \<and> main g e w0 = Some (Inr (), w2)
           \<and> trace w = trace w0 @ fetching
           \<and> count_list fetching Open_read = 0 \<and> writes fetching = []
           \<and> trace w1 = trace w @ Open_read # joined @ saved1
           \<and> count_list joined Open_read = 0 \<and> writes joined = []
           \<and> count_list saved1 Open_read = 0 \<and> attempts saved1 = []
           \<and> length (writes saved1) = (if set F - set P = {} then 0 else 1)
           \<and> trace w2 = trace w1 @ Open_read # leaving @ saved2
           \<and> count_list leaving Open_read = 0 \<and> writes leaving = []
           \<and> count_list saved2 Open_read = 0 \<and> attempts saved2 = []
           \<and> length (writes saved2) = (if set P - set F = {} then 0 else 1)"
proof (rule run_summary [OF assms], goal_cases)
  case (1 w1 w2 c1 c2 P1 P2 ftr pre1 post1 pre2 post2)
  have n: "(new_profiles e F P = []) = (set F - set P = {})"
    unfolding set_new_profiles [OF assms(1), of F P, symmetric] by simp
  have s: "(stale_profiles e P1 F = []) = (set P - set F = {})"
    unfolding 1(12) [symmetric] by simp
  have t: "trace w = trace w0 @ ftr"
    using 1(1) by simp
  have l1: "length (writes post1) = (if set F - set P = {} then 0 else 1)"
    using 1(23) n by simp
  have l2: "length (writes post2) = (if set P - set F = {} then 0 else 1)"
    using 1(30) s by simp
  note fio = fetch_io_no_store [OF 1(2)]
  from 1(3,4,5) t fio 1(13,18,17,21,20) l1 1(14,25,24,28,27) l2
  show ?case by blast
qed

theorem store_discipline_per_phase_witness:
  "iteration_ok example_env
   \<and> fetch_profiles (one_page [''b@x.org'', ''c@x.org'']) example_world =
       Some (Inr [''b@x.org'', ''c@x.org''], example_world\<lparr>trace := [Get segment_url]\<rparr>)
   \<and> writable example_world
   \<and> prior_members (cache_file example_world) = Some [''a@x.org'', ''b@x.org'']
   \<and> (\<exists>w1 w2 fetching joined saved1 leaving saved2.
         update_cache example_env [''b@x.org'', ''c@x.org'']
            (example_world\<lparr>trace := [Get segment_url]\<rparr>) = (Inr (), w1)
         \<and> remove_stale_profiles example_env [''b@x.org'', ''c@x.org''] w1 = (Inr (), w2)
         \<and> main (one_page [''b@x.org'', ''c@x.org'']) example_env example_world = Some (Inr (), w2)
         \<and> trace w1 = [Get segment_url] @ Open_read # joined @ saved1
         \<and> count_list joined Open_read = 0 \<and> writes joined = []
         \<and> count_list saved1 Open_read = 0 \<and> attempts saved1 = []
         \<and> length (writes saved1) = 1
         \<and> trace w2 = trace w1 @ Open_read # leaving @ saved2
         \<and> count_list leaving Open_read = 0 \<and> writes leaving = []
         \<and> count_list saved2 Open_read = 0 \<and> attempts saved2 = []
         \<and> length (writes saved2) = 1)"
proof -
  have f: "fetch_profiles (one_page [''b@x.org'', ''c@x.org'']) example_world =
       Some (Inr [''b@x.org'', ''c@x.org''], example_world\<lparr>trace := [Get segment_url]\<rparr>)"
    by (simp add: fetch_profiles_one_page example_world_def)
  have w: "writable example_world" by (simp add: example_world_def)
  have p: "prior_members (cache_file example_world) = Some [''a@x.org'', ''b@x.org'']"
    by (simp add: example_world_def)
  have n: "[''b@x.org'', ''c@x.org''] \<noteq> []" by simp
  have d: "set [''b@x.org'', ''c@x.org''] - set [''a@x.org'', ''b@x.org''] \<noteq> {}"
    "set [''a@x.org'', ''b@x.org''] - set [''b@x.org'', ''c@x.org''] \<noteq> {}"
    by auto
  from store_discipline_per_phase [OF iteration_ok_example_env f n w p]
  obtain w1 w2 and fetching :: "io list" and joined saved1 leaving saved2 where r:
    "update_cache example_env [''b@x.org'', ''c@x.org'']
            (example_world\<lparr>trace := [Get segment_url]\<rparr>) = (Inr (), w1)"
    "remove_stale_profiles example_env [''b@x.org'', ''c@x.org''] w1 = (Inr (), w2)"
    "main (one_page [''b@x.org'', ''c@x.org'']) example_env example_world = Some (Inr (), w2)"
    "trace w1 = trace (example_world\<lparr>trace := [Get segment_url]\<rparr>) @ Open_read # joined @ saved1"
    "count_list joined Open_read = 0" "writes joined = []"
    "count_list saved1 Open_read = 0" "attempts saved1 = []"
    "length (writes saved1) =
       (if set [''b@x.org'', ''c@x.org''] - set [''a@x.org'', ''b@x.org''] = {} then 0 else 1)"
    "trace w2 = trace w1 @ Open_read # leaving @ saved2"
    "count_list leaving Open_read = 0" "writes leaving = []"
    "count_list saved2 Open_read = 0" "attempts saved2 = []"
    "length (writes saved2) =
       (if set [''a@x.org'', ''b@x.org''] - set [''b@x.org'', ''c@x.org''] = {} then 0 else 1)"
    by blast
  have l: "length (writes saved1) = 1" "length (writes saved2) = 1"
    using r(9,15) d by (simp_all only: if_False)
  have t1: "trace w1 = [Get segment_url] @ Open_read # joined @ saved1"
    using r(4) by simp
  from iteration_ok_example_env f w p r(1,2,3) t1 r(5,6,7,8) l(1) r(10,11,12,13,14) l(2)
  show ?thesis by blast
qed

section \<open>Fetch failures and the cache file\<close>

text \<open>
  A transport error of the fetch is not reported as an empty list: \<^verbatim>\<open>requests.get\<close> raises,
  \<open>fetch_profiles\<close> does not catch the exception, and the run ends with it.
\<close>

theorem fetch_failure_counterexample:
  "fetch_profiles no_answer example_world =
     Some (Inl RequestException, example_world\<lparr>trace := [Get segment_url]\<rparr>)
   \<and> main no_answer example_env example_world =
     Some (Inl RequestException, example_world\<lparr>trace := [Get segment_url]\<rparr>)"
  by (simp add: main_def fetch_profiles_no_answer example_world_def)

text \<open>
  Claim C5 (empty-fetch gate), as the code has it. The fetch returns the empty list when
  the segment has no members and when a page request is answered with a status other than
  200, which it logs as an error; then the run logs a warning and returns. When a page
  request raises, the exception leaves the run. In both cases the cache file is not opened,
  no event is posted and nothing is written: the world is as it was before the run, but for
  the trace of the fetch.
\<close>

theorem empty_fetch_gate:
  assumes "fetch_profiles g w0 = Some (r, w)" "r = Inr [] \<or> (\<exists>x. r = Inl x)"
  shows "\<exists>gone. w = w0\<lparr>trace := trace w0 @ gone\<rparr>
           \<and> attempts gone = [] \<and> writes gone = [] \<and> count_list gone Open_read = 0
           \<and> (r = Inr []
                 \<and> main g e w0 = Some (Inr (), w\<lparr>trace := trace w @ [Log WARNING No_profiles_fetched]\<rparr>)
               \<or> r = Inl RequestException \<and> main g e w0 = Some (Inl RequestException, w))
           \<and> ((\<exists>s t. Log ERROR (Failed_to_fetch_profiles s t) \<in> set gone) \<longrightarrow> r = Inr [])"
proof -
  from fetch_profiles_effect [OF assms(1)] obtain ftr where
    f: "w = w0\<lparr>trace := trace w0 @ ftr\<rparr>" "list_all is_fetch_io ftr"
    "(\<exists>l s t. Log l (Failed_to_fetch_profiles s t) \<in> set ftr) \<longrightarrow> r = Inr []"
    by blast
  note fio = fetch_io_no_store [OF f(2)]
  have e: "(\<exists>s t. Log ERROR (Failed_to_fetch_profiles s t) \<in> set ftr) \<longrightarrow> r = Inr []"
    using f(3) by blast
  have m: "r = Inr []
             \<and> main g e w0 = Some (Inr (), w\<lparr>trace := trace w @ [Log WARNING No_profiles_fetched]\<rparr>)
           \<or> r = Inl RequestException \<and> main g e w0 = Some (Inl RequestException, w)"
  proof (cases r)
    case (Inl x)
    with assms(1) have "x = RequestException"
      using fetch_profiles_exception by blast
    with Inl assms(1) show ?thesis by (simp add: main_def)
  next
    case (Inr F)
    with assms(2) have "r = Inr []" by auto
    with assms(1) show ?thesis by (simp add: main_def logging_def)
  qed
  from f(1) fio m e show ?thesis by blast
qed

theorem empty_fetch_gate_witness:
  "fetch_profiles failing_page example_world =
     Some (Inr [], example_world\<lparr>trace := [Get segment_url,
             Log ERROR (Failed_to_fetch_profiles 500 ''Internal Server Error'')]\<rparr>)
   \<and> main failing_page example_env example_world =
       Some (Inr (), example_world\<lparr>trace := [Get segment_url,
             Log ERROR (Failed_to_fetch_profiles 500 ''Internal Server Error''),
             Log WARNING No_profiles_fetched]\<rparr>)
   \<and> fetch_profiles no_answer example_world =
       Some (Inl RequestException, example_world\<lparr>trace := [Get segment_url]\<rparr>)
   \<and> (\<exists>gone. example_world\<lparr>trace := [Get segment_url]\<rparr> = example_world\<lparr>trace := trace example_world @ gone\<rparr>
         \<and> attempts gone = [] \<and> writes gone = [] \<and> count_list gone Open_read = 0
         \<and> main no_answer example_env example_world =
             Some (Inl RequestException, example_world\<lparr>trace := [Get segment_url]\<rparr>))"
proof -
  have f: "fetch_profiles failing_page example_world =
     Some (Inr [], example_world\<lparr>trace := [Get segment_url,
             Log ERROR (Failed_to_fetch_profiles 500 ''Internal Server Error'')]\<rparr>)"
    by (simp add: fetch_profiles_failing_page example_world_def)
  have n: "fetch_profiles no_answer example_world =
       Some (Inl RequestException, example_world\<lparr>trace := [Get segment_url]\<rparr>)"
    by (simp add: fetch_profiles_no_answer example_world_def)
  from empty_fetch_gate [OF f, of example_env]
  have a: "main failing_page example_env example_world =
       Some (Inr (), example_world\<lparr>trace := [Get segment_url,
             Log ERROR (Failed_to_fetch_profiles 500 ''Internal Server Error''),
             Log WARNING No_profiles_fetched]\<rparr>)"
    by auto
  from empty_fetch_gate [OF n, of example_env]
  have b: "\<exists>gone. example_world\<lparr>trace := [Get segment_url]\<rparr> = example_world\<lparr>trace := trace example_world @ gone\<rparr>
         \<and> attempts gone = [] \<and> writes gone = [] \<and> count_list gone Open_read = 0
         \<and> main no_answer example_env example_world =
             Some (Inl RequestException, example_world\<lparr>trace := [Get segment_url]\<rparr>)"
    by auto
  from f a n b show ?thesis by blast
qed




text \<open>
  Claim C10 (the removal phase always loads). In a run whose fetch returned a non-empty
  list the removal phase never takes its "cache file not found or invalid" branch: when
  the add phase returns normally it leaves a cache file that loads.
\<close>

theorem removal_phase_always_loads:
  assumes "iteration_ok e" "fetch_profiles g w0 = Some (Inr F, w)" "F \<noteq> []"
    "main g e w0 = Some (r, w')"
  shows "(\<exists>did. trace w' = trace w0 @ did
            \<and> Log WARNING Cache_file_not_found_or_invalid \<notin> set did)
         \<and> (\<forall>u w1. update_cache e F w = (Inr u, w1) \<longrightarrow> (\<exists>c. fst (read_cache w1) = Inr (Dict c)))"
proof
  from fetch_profiles_effect [OF assms(2)] obtain ftr where
    f: "w = w0\<lparr>trace := trace w0 @ ftr\<rparr>" "list_all is_fetch_io ftr"
    by blast
  note fio = fetch_io_no_store [OF f(2)]
  obtain r1 w1 where u: "update_cache e F w = (r1, w1)"
    by (cases "update_cache e F w")
  from update_cache_no_warning [of e F w] u obtain tr1 where
    t1: "trace w1 = trace w @ tr1" "Log WARNING Cache_file_not_found_or_invalid \<notin> set tr1"
    by auto
  show "\<exists>did. trace w' = trace w0 @ did
          \<and> Log WARNING Cache_file_not_found_or_invalid \<notin> set did"
  proof (cases r1)
    case (Inl x)
    with assms(2,3,4) u have "w' = w1" by (simp add: main_def)
    with t1 f(1) fio show ?thesis
      by (intro exI [of _ "ftr @ tr1"]) simp
  next
    case (Inr v)
    with assms(2,3,4) u have m: "remove_stale_profiles e F w1 = (r, w')"
      by (simp add: main_def)
    from update_cache_leaves_json [OF assms(1,3)] u Inr obtain c where
      "cache_file w1 = Json c" by blast
    from remove_stale_profiles_no_warning [OF this, of e F] m obtain tr2 where
      "trace w' = trace w1 @ tr2" "Log WARNING Cache_file_not_found_or_invalid \<notin> set tr2"
      by auto
    with t1 f(1) fio show ?thesis
      by (intro exI [of _ "ftr @ tr1 @ tr2"]) simp
  qed
next
  show "\<forall>u w1. update_cache e F w = (Inr u, w1) \<longrightarrow> (\<exists>c. fst (read_cache w1) = Inr (Dict c))"
  proof (intro allI impI)
    fix u w1
    assume "update_cache e F w = (Inr u, w1)"
    from update_cache_leaves_json [OF assms(1,3) this] obtain c where "cache_file w1 = Json c"
      by blast
    then show "\<exists>c. fst (read_cache w1) = Inr (Dict c)"
      by (simp add: read_cache_def Let_def)
  qed
qed

theorem removal_phase_always_loads_witness:
  "iteration_ok example_env
   \<and> fetch_profiles (one_page [''c@x.org'']) (example_world\<lparr>cache_file := FileNotFound\<rparr>) =
       Some (Inr [''c@x.org''], example_world\<lparr>cache_file := FileNotFound, trace := [Get segment_url]\<rparr>)
   \<and> (\<exists>r w'. main (one_page [''c@x.org'']) example_env (example_world\<lparr>cache_file := FileNotFound\<rparr>)
                 = Some (r, w')
         \<and> (\<exists>did. trace w' = trace (example_world\<lparr>cache_file := FileNotFound\<rparr>) @ did
                \<and> Log WARNING Cache_file_not_found_or_invalid \<notin> set did))"
proof -
  have f: "fetch_profiles (one_page [''c@x.org'']) (example_world\<lparr>cache_file := FileNotFound\<rparr>) =
       Some (Inr [''c@x.org''], example_world\<lparr>cache_file := FileNotFound, trace := [Get segment_url]\<rparr>)"
    by (simp add: fetch_profiles_one_page example_world_def)
  have n: "[''c@x.org''] \<noteq> []" by simp
  obtain r w' where m:
    "main (one_page [''c@x.org'']) example_env (example_world\<lparr>cache_file := FileNotFound\<rparr>) = Some (r, w')"
    by (simp add: main_def fetch_profiles_one_page update_cache_def remove_stale_profiles_def read_cache_def write_cache_def
        new_profiles_def stale_profiles_def set_difference_def example_env_def example_world_def
        push_event_to_klaviyo_def now_def logging_def Let_def)
  from removal_phase_always_loads [OF iteration_ok_example_env f n m] iteration_ok_example_env f m
  show ?thesis by blast
qed

end
